(* ===== verification/Prelude.thy ===== *)
theory Prelude
  imports Complex_Main "HOL-Library.Word"
begin

text \<open>
  Shared vocabulary of the development: the Python exceptions the script can raise or
  catch, results as a sum type with its bind, Python's \<open>int()\<close> on exact rationals, and
  the coordinate, colour and bounding-box types PIL's drawing calls take.  The
  collections \<open>py_eval\<close> and \<open>geom_defs\<close> gather the equations that evaluate the model on
  concrete inputs.
\<close>

named_theorems py_eval "equations that evaluate the executable Python-level model"
named_theorems geom_defs "definitions of the icon geometry, unfolded for evaluation"

section \<open>Python exceptions and results\<close>

datatype py_exc =
    ImportError
  | ValueError
  | ZeroDivisionError
  | OverflowError
  | FileNotFoundError
  | OSError
  | MemoryError

type_synonym 'a py_result = "py_exc + 'a"

definition sbind :: "'a py_result \<Rightarrow> ('a \<Rightarrow> 'b py_result) \<Rightarrow> 'b py_result" where
  "sbind m f = (case m of Inl e \<Rightarrow> Inl e | Inr a \<Rightarrow> f a)"

lemma sbind_Inr [simp]: "sbind (Inr a) f = f a"
  by (simp add: sbind_def)

lemma sbind_Inl [simp]: "sbind (Inl e) f = Inl e"
  by (simp add: sbind_def)

lemma sbind_eq_Inr_iff:
  "sbind m f = Inr b \<longleftrightarrow> (\<exists>a. m = Inr a \<and> f a = Inr b)"
  by (cases m) auto

lemma sbind_Inr_right [simp]: "sbind m Inr = m"
  by (cases m) simp_all

lemma sbind_assoc: "sbind (sbind m f) g = sbind m (\<lambda>a. sbind (f a) g)"
  by (cases m) simp_all

text \<open>\<open>try: m except: h\<close> with a bare \<open>except\<close>: every exception is handled.\<close>

definition try_except :: "'a py_result \<Rightarrow> (py_exc \<Rightarrow> 'a py_result) \<Rightarrow> 'a py_result" where
  "try_except m h = (case m of Inl e \<Rightarrow> h e | Inr a \<Rightarrow> Inr a)"

lemma try_except_Inr [simp]: "try_except (Inr a) h = Inr a"
  by (simp add: try_except_def)

lemma try_except_Inl [simp]: "try_except (Inl e) h = h e"
  by (simp add: try_except_def)

section \<open>Python's int() on an exact value\<close>

text \<open>\<open>int(x)\<close> of a finite float truncates towards zero.\<close>

definition py_trunc :: "rat \<Rightarrow> int" where
  "py_trunc x = (if 0 \<le> x then \<lfloor>x\<rfloor> else \<lceil>x\<rceil>)"

lemma py_trunc_nonneg [simp]: "0 \<le> x \<Longrightarrow> py_trunc x = \<lfloor>x\<rfloor>"
  by (simp add: py_trunc_def)

lemma py_trunc_mono: "x \<le> y \<Longrightarrow> py_trunc x \<le> py_trunc y"
proof -
  assume "x \<le> y"
  then have "\<lceil>x\<rceil> \<le> \<lceil>y\<rceil>" and "\<lfloor>x\<rfloor> \<le> \<lfloor>y\<rfloor>"
    by (simp_all add: ceiling_mono floor_mono)
  moreover have "x < 0 \<Longrightarrow> \<lceil>x\<rceil> \<le> \<lfloor>y\<rfloor> \<or> y < 0"
    by (meson ceiling_le_zero floor_mono less_le_not_le order_trans nle_le zero_le_floor)
  ultimately show ?thesis using \<open>x \<le> y\<close>
    by (auto simp: py_trunc_def)
qed

lemma py_trunc_of_int [simp]: "py_trunc (of_int n) = n"
  by (simp add: py_trunc_def)

section \<open>Python's range\<close>

text \<open>\<open>range(n)\<close>: the ints \<open>0, ..., n - 1\<close>, empty when \<open>n \<le> 0\<close>.\<close>

definition py_range :: "int \<Rightarrow> int list" where
  "py_range n = map int [0..<nat n]"

lemma set_py_range [simp]: "set (py_range n) = {i. 0 \<le> i \<and> i < n}"
proof (intro set_eqI iffI)
  fix x assume "x \<in> set (py_range n)"
  then show "x \<in> {i. 0 \<le> i \<and> i < n}" by (auto simp: py_range_def)
next
  fix x assume "x \<in> {i. 0 \<le> i \<and> i < n}"
  then have "nat x \<in> set [0..<nat n]" "x = int (nat x)" by auto
  then show "x \<in> set (py_range n)" unfolding py_range_def by (metis image_eqI set_map)
qed

lemma py_range_empty [simp]: "n \<le> 0 \<Longrightarrow> py_range n = []"
  by (simp add: py_range_def)

lemma py_range_snoc: "0 \<le> n \<Longrightarrow> py_range (n + 1) = py_range n @ [n]"
  by (simp add: py_range_def nat_add_distrib)

section \<open>Coordinates, colours, boxes\<close>

type_synonym pixel = "int \<times> int"

text \<open>A fill colour as the script writes it: a tuple of Python ints (r, g, b, a).\<close>
type_synonym rgba_int = "int \<times> int \<times> int \<times> int"

text \<open>A pixel as PIL stores it in an RGBA image: four bytes.\<close>
type_synonym rgba = "8 word \<times> 8 word \<times> 8 word \<times> 8 word"

text \<open>A bounding box \<open>[x0, y0, x1, y1]\<close> as passed to \<open>ellipse\<close> and \<open>rounded_rectangle\<close>.\<close>
type_synonym bbox = "int \<times> int \<times> int \<times> int"

definition bbox_inside :: "nat \<Rightarrow> bbox \<Rightarrow> bool" where
  "bbox_inside n b = (case b of (x0, y0, x1, y1) \<Rightarrow>
     0 \<le> x0 \<and> x0 \<le> x1 \<and> x1 < int n \<and> 0 \<le> y0 \<and> y0 \<le> y1 \<and> y1 < int n)"

definition in_bbox :: "bbox \<Rightarrow> pixel \<Rightarrow> bool" where
  "in_bbox b p = (case b of (x0, y0, x1, y1) \<Rightarrow> case p of (x, y) \<Rightarrow>
     x0 \<le> x \<and> x \<le> x1 \<and> y0 \<le> y \<and> y \<le> y1)"

end
