(* ===== verification/PyFloat.thy ===== *)
theory PyFloat
  imports Prelude
begin

text \<open>
  CPython floats are IEEE-754 binary64 numbers and every float operation rounds its exact
  result to the nearest binary64 value, ties to even.  The script computes all of its
  geometry and gradient colours through such operations (\<open>int(size * 0.47)\<close>,
  \<open>int(37 + (29 - 37) * (i / radius))\<close>), so the model keeps them.

  \<^item> \<open>dround\<close> is the rounding on exact rationals: scale by the binade's unit
    \<open>pow2 (fexp x)\<close>, round to the nearest integer with ties to even (\<open>rne\<close>),
    scale back.  Subnormals are kept (the exponent never drops below -1074); overflow to
    infinity is not modelled, as every value the script computes is far below
    \<open>2 ^ 1024\<close>.
  \<^item> \<open>pyfloat\<close> is the executable representation, a pair \<open>(m, e)\<close> for
    \<open>m * 2 ^ e\<close>; \<open>round_frac\<close> rounds a quotient of integers with integer
    arithmetic only, so that concrete runs evaluate by \<open>simp\<close>.
  \<^item> The refinement theorem \<open>fval_round_frac\<close> shows that the integer algorithm computes
    exactly \<open>dround\<close>; the Python operations \<open>float_of_int\<close>, \<open>fmul\<close>,
    \<open>fadd\<close>, \<open>fsub\<close>, \<open>int_truediv\<close> (the \<open>/\<close> of two ints) and
    \<open>ftrunc\<close> (\<open>int()\<close>) inherit it.
  \<^item> \<open>dround_mono\<close> and \<open>dround_exact\<close> give the bounds on \<open>int(n * c)\<close>
    (\<open>int_of_mul_le\<close>, \<open>int_of_mul_ge\<close>) that the geometry proofs use for every size.
\<close>

section \<open>Powers of two and binary logarithms\<close>

definition pow2 :: "int \<Rightarrow> rat" where
  "pow2 e = 2 powi e"

lemma pow2_pos [simp]: "0 < pow2 e"
  by (simp add: pow2_def)

lemma pow2_nonneg [simp]: "0 \<le> pow2 e"
  by (simp add: pow2_def)

lemma pow2_nonzero [simp]: "pow2 e \<noteq> 0"
  by (simp add: pow2_def)

lemma pow2_add: "pow2 (a + b) = pow2 a * pow2 b"
  by (simp add: pow2_def power_int_add)

lemma pow2_less_iff [simp]: "pow2 a < pow2 b \<longleftrightarrow> a < b"
  by (metis linorder_neqE_linordered_idom not_less_iff_gr_or_eq one_less_numeral_iff
        pow2_def power_int_strict_increasing semiring_norm(76))

lemma pow2_le_iff [simp]: "pow2 a \<le> pow2 b \<longleftrightarrow> a \<le> b"
  by (meson linorder_not_le pow2_less_iff)

lemma pow2_of_nat [simp]: "pow2 (int n) = 2 ^ n"
  by (simp add: pow2_def)

lemma pow2_minus_nat: "pow2 (- int n) = 1 / 2 ^ n"
  by (simp add: pow2_def power_int_minus_divide)

lemma pow2_numeral [simp]: "pow2 (numeral n) = 2 ^ numeral n"
  by (simp add: pow2_def)

lemma pow2_zero [simp]: "pow2 0 = 1"
  by (simp add: pow2_def)

lemma pow2_Suc: "pow2 (k + 1) = 2 * pow2 k"
  by (simp add: pow2_def power_int_add_1)

lemma pow2_diff: "pow2 (a - b) = pow2 a / pow2 b"
  by (simp add: pow2_def power_int_diff)

lemma pow2_nat_nonneg: "0 \<le> e \<Longrightarrow> pow2 e = 2 ^ nat e"
  by (simp add: pow2_def power_int_nonneg_exp)

lemma pow2_nat_neg: "e < 0 \<Longrightarrow> pow2 e = 1 / 2 ^ nat (- e)"
  using pow2_minus_nat [of "nat (- e)"] by simp

fun ilog2 :: "nat \<Rightarrow> nat" where
  "ilog2 n = (if n < 2 then 0 else Suc (ilog2 (n div 2)))"

declare ilog2.simps [simp del]

lemma ilog2_bounds: "0 < n \<Longrightarrow> 2 ^ ilog2 n \<le> n \<and> n < 2 ^ Suc (ilog2 n)"
proof (induction n rule: ilog2.induct)
  case (1 n)
  show ?case
  proof (cases "n < 2")
    case True
    with "1.prems" show ?thesis by (simp add: ilog2.simps [of n])
  next
    case False
    with "1.IH" have ih: "2 ^ ilog2 (n div 2) \<le> n div 2 \<and> n div 2 < 2 ^ Suc (ilog2 (n div 2))"
      by simp
    have dv: "2 * (n div 2) \<le> n \<and> n < 2 * (n div 2) + 2"
      by linarith
    have u: "ilog2 n = Suc (ilog2 (n div 2))"
      using False by (simp add: ilog2.simps [of n])
    show ?thesis
      unfolding u using ih dv by (simp only: power_Suc) linarith
  qed
qed

lemma ilog2_bounds_rat:
  assumes "0 < n"
  shows "(2::rat) ^ ilog2 n \<le> of_nat n \<and> (of_nat n :: rat) < 2 ^ Suc (ilog2 n)"
proof -
  from ilog2_bounds [OF assms] have "2 ^ ilog2 n \<le> n" and "n < 2 ^ Suc (ilog2 n)"
    by simp_all
  then have "(of_nat (2 ^ ilog2 n) :: rat) \<le> of_nat n" and "(of_nat n :: rat) < of_nat (2 ^ Suc (ilog2 n))"
    by (simp_all only: of_nat_le_iff of_nat_less_iff)
  then show ?thesis by simp
qed

definition rlog2 :: "rat \<Rightarrow> int" where
  "rlog2 q = (case quotient_of q of (a, b) \<Rightarrow>
     let k = int (ilog2 (nat a)) - int (ilog2 (nat b)) in
     if pow2 k \<le> q then k else k - 1)"

lemma ilog2_ratio_bounds:
  assumes a: "0 < a" and b: "0 < b"
  defines "k \<equiv> int (ilog2 (nat a)) - int (ilog2 (nat b))"
  shows "pow2 (k - 1) < of_int a / of_int b \<and> of_int a / of_int b < pow2 (k + 1)"
proof -
  define la where "la = ilog2 (nat a)"
  define lb where "lb = ilog2 (nat b)"
  from ilog2_bounds_rat [of "nat a"] a have la: "2 ^ la \<le> rat_of_int a \<and> rat_of_int a < 2 ^ Suc la"
    unfolding la_def by simp
  from ilog2_bounds_rat [of "nat b"] b have lb: "2 ^ lb \<le> rat_of_int b \<and> rat_of_int b < 2 ^ Suc lb"
    unfolding lb_def by simp
  have "k + 1 = int (Suc la) - int lb" and "k - 1 = int la - int (Suc lb)"
    by (simp_all add: k_def la_def lb_def)
  then have pk1: "pow2 (k + 1) = 2 ^ Suc la / 2 ^ lb"
    and pkm: "pow2 (k - 1) = 2 ^ la / 2 ^ Suc lb"
    by (simp_all only: pow2_diff pow2_of_nat)
  have "(2::rat) ^ la / 2 ^ Suc lb < of_int a / of_int b"
    using la lb b by (simp add: frac_less2)
  moreover have "of_int a / of_int b < (2::rat) ^ Suc la / 2 ^ lb"
    using la lb b a by (simp add: frac_less)
  ultimately show ?thesis
    using pk1 pkm by simp
qed

lemma rlog2_bounds:
  assumes "0 < q"
  shows "pow2 (rlog2 q) \<le> q \<and> q < pow2 (rlog2 q + 1)"
proof -
  obtain a b where qab: "quotient_of q = (a, b)" by (cases "quotient_of q")
  then have b: "0 < b" and q: "q = of_int a / of_int b"
    by (simp_all add: quotient_of_denom_pos quotient_of_div)
  with assms have a: "0 < a"
    by (simp add: zero_less_divide_iff)
  define k where "k = int (ilog2 (nat a)) - int (ilog2 (nat b))"
  from ilog2_ratio_bounds [OF a b] have lo: "pow2 (k - 1) < q" and hi: "q < pow2 (k + 1)"
    by (simp_all add: q k_def)
  have r: "rlog2 q = (if pow2 k \<le> q then k else k - 1)"
    by (simp add: rlog2_def qab k_def Let_def)
  show ?thesis
    using lo hi r by (auto simp: not_le)
qed

lemma rlog2_unique:
  assumes "pow2 k \<le> q" and "q < pow2 (k + 1)"
  shows "rlog2 q = k"
proof -
  have "0 < q" using assms(1) pow2_pos by (meson less_le_trans)
  from rlog2_bounds [OF this] assms
  have "pow2 (rlog2 q) < pow2 (k + 1)" and "pow2 k < pow2 (rlog2 q + 1)"
    by (meson le_less_trans)+
  then show ?thesis by simp
qed

lemma rlog2_mono:
  assumes "0 < x" and "x \<le> y"
  shows "rlog2 x \<le> rlog2 y"
proof -
  have "0 < y" using assms by linarith
  from rlog2_bounds [OF assms(1)] rlog2_bounds [OF this] assms(2)
  have "pow2 (rlog2 x) < pow2 (rlog2 y + 1)" by linarith
  then show ?thesis by simp
qed

section \<open>Rounding to nearest, ties to even\<close>

definition rne :: "rat \<Rightarrow> int" where
  "rne x = (let f = \<lfloor>x\<rfloor>; d = x - of_int f in
     if d < 1/2 then f else if 1/2 < d then f + 1 else if even f then f else f + 1)"

lemma rne_of_int [simp]: "rne (of_int n) = n"
  by (simp add: rne_def)

lemma rne_of_nat [simp]: "rne (of_nat n) = int n"
  using rne_of_int [of "int n"] by simp

lemma rne_zero [simp]: "rne 0 = 0"
  using rne_of_int [of 0] by simp

lemma rne_numeral [simp]: "rne (numeral n) = numeral n"
  using rne_of_int [of "numeral n"] by simp

lemma rne_cases:
  "(rne x = \<lfloor>x\<rfloor> \<and> x - of_int \<lfloor>x\<rfloor> \<le> 1/2) \<or>
   (rne x = \<lfloor>x\<rfloor> + 1 \<and> 1/2 \<le> x - of_int \<lfloor>x\<rfloor>)"
  by (auto simp: rne_def Let_def)

lemma rne_mono:
  assumes "x \<le> y"
  shows "rne x \<le> rne y"
proof (cases "\<lfloor>x\<rfloor> = \<lfloor>y\<rfloor>")
  case True
  show ?thesis
  proof (cases "x = y")
    case False
    with assms True have "x - of_int \<lfloor>x\<rfloor> < y - of_int \<lfloor>y\<rfloor>" by simp
    with True rne_cases [of x] rne_cases [of y] show ?thesis by auto
  qed simp
next
  case False
  with assms have "\<lfloor>x\<rfloor> < \<lfloor>y\<rfloor>"
    by (meson floor_mono order_le_neq_trans)
  with rne_cases [of x] rne_cases [of y] show ?thesis by auto
qed

lemma floor_uminus_nonint:
  assumes "x \<noteq> of_int \<lfloor>x\<rfloor>"
  shows "\<lfloor>- x\<rfloor> = - \<lfloor>x\<rfloor> - 1"
proof (rule floor_unique)
  have "of_int \<lfloor>x\<rfloor> < x" using assms of_int_floor_le [of x] by linarith
  then show "- x < of_int (- \<lfloor>x\<rfloor> - 1) + 1" by simp
  show "of_int (- \<lfloor>x\<rfloor> - 1) \<le> - x" using floor_correct [of x] by simp
qed

lemma rne_uminus: "rne (- x) = - rne x"
proof (cases "x = of_int \<lfloor>x\<rfloor>")
  case True
  then obtain n where "x = of_int n" by blast
  then show ?thesis by (metis of_int_minus rne_of_int)
next
  case False
  then have fl: "\<lfloor>- x\<rfloor> = - \<lfloor>x\<rfloor> - 1" by (rule floor_uminus_nonint)
  then have d: "- x - of_int \<lfloor>- x\<rfloor> = 1 - (x - of_int \<lfloor>x\<rfloor>)" by simp
  show ?thesis
    unfolding rne_def Let_def d fl by (auto simp: even_add)
qed

lemma rne_nonneg: "0 \<le> x \<Longrightarrow> 0 \<le> rne x"
  using rne_mono [of 0 x] by simp

definition fexp :: "rat \<Rightarrow> int" where
  "fexp x = max (rlog2 \<bar>x\<bar> - 52) (-1074)"

definition dround :: "rat \<Rightarrow> rat" where
  "dround x = (if x = 0 then 0 else of_int (rne (x / pow2 (fexp x))) * pow2 (fexp x))"

lemma fexp_uminus [simp]: "fexp (- x) = fexp x"
  by (simp add: fexp_def)

lemma dround_zero [simp]: "dround 0 = 0"
  by (simp add: dround_def)

lemma dround_uminus: "dround (- x) = - dround x"
  by (simp add: dround_def rne_uminus)

lemma dround_nonneg:
  assumes "0 \<le> x"
  shows "0 \<le> dround x"
proof -
  have "0 \<le> rne (x / pow2 (fexp x))"
    using assms by (intro rne_nonneg) (simp add: zero_le_divide_iff)
  then show ?thesis by (simp add: dround_def)
qed

lemma fexp_mono: "0 < x \<Longrightarrow> x \<le> y \<Longrightarrow> fexp x \<le> fexp y"
  using rlog2_mono [of x y] by (simp add: fexp_def)

lemma dround_scaled_upper:
  assumes "0 < x"
  shows "x / pow2 (fexp x) < 2 ^ 53"
proof -
  have "x < pow2 (rlog2 x + 1)" using rlog2_bounds [OF assms] by simp
  also have "\<dots> \<le> pow2 (fexp x + 53)" using assms by (simp add: fexp_def)
  also have "\<dots> = 2 ^ 53 * pow2 (fexp x)" by (simp add: pow2_add mult.commute)
  finally show ?thesis by (simp add: divide_less_eq)
qed

lemma dround_scaled_lower:
  assumes "0 < x" and "-1074 < fexp x"
  shows "2 ^ 52 \<le> x / pow2 (fexp x)"
proof -
  have e: "fexp x = rlog2 x - 52" using assms by (simp add: fexp_def)
  have "pow2 52 * pow2 (fexp x) = pow2 (rlog2 x)"
    by (simp only: e flip: pow2_add) simp
  then have "2 ^ 52 * pow2 (fexp x) = pow2 (rlog2 x)" by simp
  also have "\<dots> \<le> x" using rlog2_bounds [OF assms(1)] by simp
  finally show ?thesis by (simp add: le_divide_eq)
qed

lemma dround_upper_binade:
  assumes "0 < x"
  shows "dround x \<le> pow2 (fexp x + 53)"
proof -
  have "rne (x / pow2 (fexp x)) \<le> rne (of_int (2 ^ 53))"
    using dround_scaled_upper [OF assms] by (intro rne_mono) simp
  then have "rne (x / pow2 (fexp x)) \<le> 2 ^ 53"
    by (simp only: rne_of_int)
  then have "(of_int (rne (x / pow2 (fexp x))) :: rat) \<le> of_int (2 ^ 53)"
    by (simp only: of_int_le_iff)
  then have "of_int (rne (x / pow2 (fexp x))) * pow2 (fexp x) \<le> 2 ^ 53 * pow2 (fexp x)"
    by (intro mult_right_mono) simp_all
  then show ?thesis using assms
    by (simp add: dround_def pow2_add mult.commute)
qed

lemma dround_lower_binade:
  assumes "0 < x" and "-1074 < fexp x"
  shows "pow2 (fexp x + 52) \<le> dround x"
proof -
  have "rne (of_int (2 ^ 52)) \<le> rne (x / pow2 (fexp x))"
    using dround_scaled_lower [OF assms] by (intro rne_mono) simp
  then have "2 ^ 52 \<le> rne (x / pow2 (fexp x))"
    by (simp only: rne_of_int)
  then have "(of_int (2 ^ 52) :: rat) \<le> of_int (rne (x / pow2 (fexp x)))"
    by (simp only: of_int_le_iff)
  then have "2 ^ 52 * pow2 (fexp x) \<le> of_int (rne (x / pow2 (fexp x))) * pow2 (fexp x)"
    by (intro mult_right_mono) simp_all
  then show ?thesis using assms
    by (simp add: dround_def pow2_add mult.commute)
qed

lemma dround_mono_pos:
  assumes "0 < x" and "x \<le> y"
  shows "dround x \<le> dround y"
proof -
  have y: "0 < y" using assms by linarith
  have le: "fexp x \<le> fexp y" using assms by (rule fexp_mono)
  show ?thesis
  proof (cases "fexp x = fexp y")
    case True
    have "x / pow2 (fexp x) \<le> y / pow2 (fexp x)"
      using assms(2) by (simp add: divide_right_mono)
    then have "rne (x / pow2 (fexp x)) \<le> rne (y / pow2 (fexp y))"
      using True by (simp add: rne_mono)
    then have "of_int (rne (x / pow2 (fexp x))) * pow2 (fexp x)
               \<le> of_int (rne (y / pow2 (fexp y))) * pow2 (fexp y)"
      using True by (simp add: mult_right_mono)
    with assms y show ?thesis by (simp add: dround_def)
  next
    case False
    with le have lt: "fexp x < fexp y" by simp
    then have "-1074 < fexp y" by (simp add: fexp_def)
    have "dround x \<le> pow2 (fexp x + 53)" using assms(1) by (rule dround_upper_binade)
    also have "\<dots> \<le> pow2 (fexp y + 52)" using lt by simp
    also have "\<dots> \<le> dround y" using y \<open>-1074 < fexp y\<close> by (rule dround_lower_binade)
    finally show ?thesis .
  qed
qed

lemma dround_nonpos: "x \<le> 0 \<Longrightarrow> dround x \<le> 0"
  using dround_nonneg [of "- x"] by (simp add: dround_uminus)

text \<open>Rounding to nearest is monotone: the key fact behind every bound below.\<close>

lemma dround_mono:
  assumes "x \<le> y"
  shows "dround x \<le> dround y"
proof (cases "0 < x")
  case True
  then show ?thesis using assms by (rule dround_mono_pos)
next
  case False
  show ?thesis
  proof (cases "0 \<le> y")
    case True
    with False show ?thesis
      using dround_nonpos [of x] dround_nonneg [of y] by simp
  next
    case False
    then have "0 < - y" and "- y \<le> - x" using assms by simp_all
    then have "dround (- y) \<le> dround (- x)" by (rule dround_mono_pos)
    then show ?thesis by (simp add: dround_uminus)
  qed
qed

text \<open>A value with a 53-bit significand and an exponent in range is its own rounding.\<close>

lemma dround_exact:
  assumes m: "\<bar>m\<bar> < 2 ^ 53" and k: "-1074 \<le> k"
  shows "dround (of_int m * pow2 k) = of_int m * pow2 k"
proof (cases "m = 0")
  case False
  define x where "x = of_int m * pow2 k"
  have x0: "0 < \<bar>x\<bar>" using False by (simp add: x_def)
  have "\<bar>x\<bar> = of_int \<bar>m\<bar> * pow2 k" by (simp add: x_def abs_mult)
  also have "\<dots> < 2 ^ 53 * pow2 k"
  proof -
    have "(of_int \<bar>m\<bar> :: rat) < of_int (2 ^ 53)" using m by (simp only: of_int_less_iff)
    then show ?thesis by (simp add: mult_strict_right_mono)
  qed
  also have "\<dots> = pow2 (k + 53)" by (simp add: pow2_add mult.commute)
  finally have "pow2 (rlog2 \<bar>x\<bar>) < pow2 (k + 53)"
    using rlog2_bounds [OF x0] by linarith
  then have fe: "fexp x \<le> k" using k by (simp add: fexp_def)
  define n where "n = nat (k - fexp x)"
  have "x / pow2 (fexp x) = of_int m * pow2 (k - fexp x)"
    by (simp add: x_def pow2_diff)
  also have "\<dots> = of_int (m * 2 ^ n)"
    using fe by (simp add: n_def pow2_nat_nonneg)
  finally have sc: "x / pow2 (fexp x) = of_int (m * 2 ^ n)" .
  have "rne (x / pow2 (fexp x)) = m * 2 ^ n" by (simp only: sc rne_of_int)
  then have "dround x = of_int m * (2 ^ n * pow2 (fexp x))"
    using False by (simp add: dround_def x_def)
  also have "2 ^ n * pow2 (fexp x) = pow2 k"
    using fe by (simp add: n_def flip: pow2_of_nat pow2_add)
  finally show ?thesis by (simp add: x_def)
qed simp

section \<open>Executable binary64 values\<close>

type_synonym pyfloat = "int \<times> int"

definition fval :: "pyfloat \<Rightarrow> rat" where
  "fval x = (case x of (m, e) \<Rightarrow> of_int m * pow2 e)"

function nbits :: "int \<Rightarrow> nat" where
  "nbits n = (if n \<le> 0 then 0 else Suc (nbits (n div 2)))"
  by pat_completeness auto
termination
  by (relation "measure nat") auto

declare nbits.simps [simp del]

lemma fval_pair [simp]: "fval (m, e) = of_int m * pow2 e"
  by (simp add: fval_def)

lemma nbits_ilog2: "0 < n \<Longrightarrow> nbits n = Suc (ilog2 (nat n))"
proof (induction n rule: nbits.induct)
  case (1 n)
  show ?case
  proof (cases "n < 2")
    case True
    with "1.prems" have "n = 1" by simp
    then show ?thesis by (simp add: nbits.simps [of 1] nbits.simps [of 0] ilog2.simps [of "Suc 0"])
  next
    case False
    with "1.IH" "1.prems" have "nbits (n div 2) = Suc (ilog2 (nat (n div 2)))" by simp
    moreover have "nat (n div 2) = nat n div 2" by (simp add: nat_div_distrib)
    ultimately show ?thesis
      using False "1.prems" by (simp add: nbits.simps [of n] ilog2.simps [of "nat n"] nat_less_iff)
  qed
qed

definition rne_div :: "int \<Rightarrow> int \<Rightarrow> int" where
  "rne_div n d = (let q = n div d; r = n mod d in
     if 2 * r < d then q else if d < 2 * r then q + 1 else if even q then q else q + 1)"

lemma rne_div_eq:
  assumes "0 < d"
  shows "rne_div n d = rne (of_int n / of_int d)"
proof -
  define q where "q = n div d"
  define r where "r = n mod d"
  have fl: "\<lfloor>(of_int n :: rat) / of_int d\<rfloor> = q"
    by (simp add: q_def floor_divide_of_int_eq)
  have "n = q * d + r" by (simp add: q_def r_def)
  then have fr: "(of_int n :: rat) / of_int d - of_int q = of_int r / of_int d"
    using assms by (simp add: field_simps)
  have c1: "(of_int r * 2 < (of_int d :: rat)) = (r * 2 < d)"
    and c2: "((of_int d :: rat) < of_int r * 2) = (d < r * 2)"
    by (metis of_int_less_iff of_int_mult of_int_numeral)+
  have h1: "(of_int r / of_int d < (1/2 :: rat)) = (2 * r < d)"
    and h2: "((1/2 :: rat) < of_int r / of_int d) = (d < 2 * r)"
    using assms by (simp_all add: field_simps c1 c2)
  show ?thesis
    unfolding rne_def rne_div_def Let_def fl fr h1 h2 q_def [symmetric] r_def [symmetric] ..
qed

definition scale_frac :: "int \<Rightarrow> int \<Rightarrow> int \<Rightarrow> int \<times> int" where
  "scale_frac a b e = (if 0 \<le> e then (a, b * 2 ^ nat e) else (a * 2 ^ nat (- e), b))"

lemma scale_frac_eq:
  assumes "0 < b" and "scale_frac a b e = (n, d)"
  shows "0 < d \<and> (of_int n :: rat) / of_int d = of_int a / of_int b / pow2 e"
  using assms by (auto simp: scale_frac_def pow2_nat_nonneg pow2_nat_neg split: if_splits)

definition round_pos :: "int \<Rightarrow> int \<Rightarrow> pyfloat" where
  "round_pos a b =
    (let e0 = int (nbits a) - int (nbits b) - 53;
         e1 = (case scale_frac a b e0 of (n, d) \<Rightarrow> if n div d < 2 ^ 53 then e0 else e0 + 1);
         e = max e1 (-1074)
     in case scale_frac a b e of (n, d) \<Rightarrow> (rne_div n d, e))"

lemma round_pos_eq:
  assumes a: "0 < a" and b: "0 < b"
  defines "x \<equiv> (of_int a / of_int b :: rat)"
  shows "round_pos a b = (rne (x / pow2 (fexp x)), fexp x)"
proof -
  have x: "0 < x" using a b by (simp add: x_def)
  define e0 where "e0 = int (nbits a) - int (nbits b) - 53"
  have e0': "e0 = int (ilog2 (nat a)) - int (ilog2 (nat b)) - 53"
    using a b by (simp add: e0_def nbits_ilog2)
  from ilog2_ratio_bounds [OF a b] have lo: "pow2 (e0 + 52) < x" and hi: "x < pow2 (e0 + 54)"
    by (simp_all add: x_def e0' algebra_simps)
  obtain n0 d0 where sf0: "scale_frac a b e0 = (n0, d0)" by (cases "scale_frac a b e0")
  from scale_frac_eq [OF b sf0] have d0: "0 < d0" and q0: "of_int n0 / of_int d0 = x / pow2 e0"
    by (simp_all add: x_def)
  have "(n0 div d0 < 2 ^ 53) = (x / pow2 e0 < 2 ^ 53)"
    by (metis floor_divide_of_int_eq floor_less_iff of_int_numeral of_int_power q0)
  also have "\<dots> = (x < pow2 (e0 + 53))"
    by (simp add: divide_less_eq pow2_add mult.commute)
  finally have t: "(n0 div d0 < 2 ^ 53) = (x < pow2 (e0 + 53))" .
  define e1 where "e1 = (if n0 div d0 < 2 ^ 53 then e0 else e0 + 1)"
  have e1: "e1 = rlog2 x - 52"
  proof (cases "x < pow2 (e0 + 53)")
    case True
    then have "rlog2 x = e0 + 52" using lo by (intro rlog2_unique) (simp_all add: ac_simps)
    with True t show ?thesis by (simp add: e1_def)
  next
    case False
    then have "rlog2 x = e0 + 53" using hi by (intro rlog2_unique) (simp_all add: not_less ac_simps)
    with False t show ?thesis by (simp add: e1_def)
  qed
  have e: "max e1 (-1074) = fexp x" using x by (simp add: fexp_def e1)
  obtain n d where sf: "scale_frac a b (fexp x) = (n, d)" by (cases "scale_frac a b (fexp x)")
  from scale_frac_eq [OF b sf] have "0 < d" and "of_int n / of_int d = x / pow2 (fexp x)"
    by (simp_all add: x_def)
  then have "rne_div n d = rne (x / pow2 (fexp x))" by (simp add: rne_div_eq)
  moreover have "round_pos a b =
      (case scale_frac a b (max e1 (-1074)) of (n, d) \<Rightarrow> (rne_div n d, max e1 (-1074)))"
    unfolding round_pos_def Let_def e0_def [symmetric] sf0 e1_def by simp
  ultimately show ?thesis
    by (simp add: e sf)
qed

definition round_frac :: "int \<Rightarrow> int \<Rightarrow> pyfloat" where
  "round_frac a b =
    (if a = 0 then (0, 0) else case round_pos \<bar>a\<bar> b of (q, e) \<Rightarrow> (sgn a * q, e))"

theorem fval_round_frac:
  assumes "0 < b"
  shows "fval (round_frac a b) = dround (of_int a / of_int b)"
proof (cases "a = 0")
  case False
  define x where "x = (of_int \<bar>a\<bar> / of_int b :: rat)"
  have pos: "round_pos \<bar>a\<bar> b = (rne (x / pow2 (fexp x)), fexp x)"
    using False assms by (simp add: round_pos_eq x_def)
  have x: "x \<noteq> 0" using False assms by (simp add: x_def)
  have "fval (round_frac a b) = of_int (sgn a) * dround x"
    using False x by (simp add: round_frac_def pos dround_def)
  also have "\<dots> = dround (of_int a / of_int b)"
  proof (cases "0 < a")
    case True
    then show ?thesis by (simp add: x_def)
  next
    case False
    with \<open>a \<noteq> 0\<close> have "of_int a / of_int b = - x" by (simp add: x_def)
    with False \<open>a \<noteq> 0\<close> show ?thesis by (simp add: dround_uminus)
  qed
  finally show ?thesis .
qed (simp add: round_frac_def)

definition round_dyadic :: "int \<Rightarrow> int \<Rightarrow> pyfloat" where
  "round_dyadic m e = (if 0 \<le> e then round_frac (m * 2 ^ nat e) 1 else round_frac m (2 ^ nat (- e)))"

lemma fval_round_dyadic: "fval (round_dyadic m e) = dround (of_int m * pow2 e)"
  by (simp add: round_dyadic_def fval_round_frac pow2_nat_nonneg pow2_nat_neg)

definition float_of_int :: "int \<Rightarrow> pyfloat" where
  "float_of_int n = round_frac n 1"

definition fmul :: "pyfloat \<Rightarrow> pyfloat \<Rightarrow> pyfloat" where
  "fmul x y = (case x of (m1, e1) \<Rightarrow> case y of (m2, e2) \<Rightarrow> round_dyadic (m1 * m2) (e1 + e2))"

definition fadd :: "pyfloat \<Rightarrow> pyfloat \<Rightarrow> pyfloat" where
  "fadd x y = (case x of (m1, e1) \<Rightarrow> case y of (m2, e2) \<Rightarrow>
     let e = min e1 e2 in round_dyadic (m1 * 2 ^ nat (e1 - e) + m2 * 2 ^ nat (e2 - e)) e)"

definition fsub :: "pyfloat \<Rightarrow> pyfloat \<Rightarrow> pyfloat" where
  "fsub x y = (case y of (m, e) \<Rightarrow> fadd x (- m, e))"

definition int_truediv :: "int \<Rightarrow> int \<Rightarrow> pyfloat py_result" where
  "int_truediv a b = (if b = 0 then Inl ZeroDivisionError else Inr (round_frac (sgn b * a) \<bar>b\<bar>))"

definition ftrunc :: "pyfloat \<Rightarrow> int" where
  "ftrunc x = (case x of (m, e) \<Rightarrow>
     if 0 \<le> e then m * 2 ^ nat e else sgn m * (\<bar>m\<bar> div 2 ^ nat (- e)))"

lemma fval_float_of_int: "fval (float_of_int n) = dround (of_int n)"
  by (simp add: float_of_int_def fval_round_frac)

lemma fval_float_of_int_exact: "\<bar>n\<bar> < 2 ^ 53 \<Longrightarrow> fval (float_of_int n) = of_int n"
  using dround_exact [of n 0] by (simp add: fval_float_of_int)

lemma fval_fmul: "fval (fmul x y) = dround (fval x * fval y)"
  by (cases x; cases y) (simp add: fmul_def fval_round_dyadic pow2_add ac_simps)

lemma fval_fadd: "fval (fadd x y) = dround (fval x + fval y)"
proof (cases x; cases y)
  fix m1 e1 m2 e2
  assume xy: "x = (m1, e1)" "y = (m2, e2)"
  define e where "e = min e1 e2"
  have "of_int (m1 * 2 ^ nat (e1 - e) + m2 * 2 ^ nat (e2 - e)) * pow2 e
        = of_int m1 * pow2 e1 + of_int m2 * pow2 e2"
    by (simp add: e_def algebra_simps flip: pow2_of_nat pow2_add)
  then show ?thesis
    by (simp add: xy fadd_def fval_round_dyadic Let_def flip: e_def)
qed

lemma fval_fsub: "fval (fsub x y) = dround (fval x - fval y)"
  by (cases y) (simp add: fsub_def fval_fadd)

lemma int_truediv_eq:
  "b \<noteq> 0 \<Longrightarrow> \<exists>z. int_truediv a b = Inr z \<and> fval z = dround (of_int a / of_int b)"
  by (auto simp: int_truediv_def fval_round_frac sgn_if)

lemma int_truediv_zero: "int_truediv a 0 = Inl ZeroDivisionError"
  by (simp add: int_truediv_def)

lemma ftrunc_eq: "ftrunc x = py_trunc (fval x)"
proof (cases x)
  case (Pair m e)
  show ?thesis
  proof (cases "0 \<le> e")
    case True
    then have v: "fval x = of_int (m * 2 ^ nat e)" by (simp add: Pair pow2_nat_nonneg)
    show ?thesis unfolding v py_trunc_of_int using True by (simp add: Pair ftrunc_def)
  next
    case False
    define d where "d = (2::int) ^ nat (- e)"
    have d: "0 < d" by (simp add: d_def)
    have v: "fval x = of_int m / of_int d"
      using False by (simp add: Pair pow2_nat_neg d_def)
    show ?thesis
    proof (cases "0 \<le> m")
      case True
      have "ftrunc x = m div d"
        using False True by (auto simp: Pair ftrunc_def d_def sgn_if)
      moreover have "py_trunc (fval x) = m div d"
        unfolding v using True d by (simp add: floor_divide_of_int_eq divide_nonneg_pos)
      ultimately show ?thesis by simp
    next
      case neg: False
      have "ftrunc x = - ((- m) div d)"
        using False neg by (simp add: Pair ftrunc_def d_def sgn_if)
      moreover have "py_trunc (fval x) = - ((- m) div d)"
      proof -
        have "(of_int m :: rat) / of_int d < 0" using neg d by (simp add: divide_neg_pos)
        moreover have "\<lceil>(of_int m :: rat) / of_int d\<rceil> = - ((- m) div d)"
          by (metis ceiling_def floor_divide_of_int_eq minus_divide_left of_int_minus)
        ultimately show ?thesis unfolding v by (simp add: py_trunc_def)
      qed
      ultimately show ?thesis by simp
    qed
  qed
qed

lemma dround_exact_frac:
  assumes "\<bar>p\<bar> < 2 ^ 53" and "k \<le> 1074"
  shows "dround (of_int p / 2 ^ k) = of_int p / 2 ^ k"
  using dround_exact [of p "- int k"] assms by (simp add: pow2_minus_nat)

lemma round_frac_ge:
  assumes "0 < b" and "\<bar>p\<bar> < 2 ^ 53" and "k \<le> 1074"
    and "of_int p / 2 ^ k \<le> (of_int a / of_int b :: rat)"
  shows "of_int p / 2 ^ k \<le> fval (round_frac a b)"
  using dround_mono [OF assms(4)] dround_exact_frac [OF assms(2,3)]
  by (simp add: fval_round_frac assms(1))

lemma round_frac_le:
  assumes "0 < b" and "\<bar>p\<bar> < 2 ^ 53" and "k \<le> 1074"
    and "(of_int a / of_int b :: rat) \<le> of_int p / 2 ^ k"
  shows "fval (round_frac a b) \<le> of_int p / 2 ^ k"
  using dround_mono [OF assms(4)] dround_exact_frac [OF assms(2,3)]
  by (simp add: fval_round_frac assms(1))

lemma py_trunc_div: "0 \<le> a \<Longrightarrow> 0 < b \<Longrightarrow> py_trunc (of_int a / of_int b) = a div b"
  by (simp add: floor_divide_of_int_eq)

text \<open>\<open>int(n * c)\<close> for a Python int \<open>n\<close> and a float \<open>c\<close>: the int is converted
  to float, the product rounded, the result truncated.\<close>

definition int_of_mul :: "int \<Rightarrow> pyfloat \<Rightarrow> int" where
  "int_of_mul n c = ftrunc (fmul (float_of_int n) c)"

lemma int_of_mul_eq:
  "\<bar>n\<bar> < 2 ^ 53 \<Longrightarrow> int_of_mul n c = py_trunc (dround (of_int n * fval c))"
  by (simp add: int_of_mul_def ftrunc_eq fval_fmul fval_float_of_int_exact)

lemma int_of_mul_le:
  assumes n: "0 \<le> n" and p: "0 \<le> p" and np: "n * p < 2 ^ 53" and k: "k \<le> 1074"
    and n53: "n < 2 ^ 53" and c: "fval c \<le> of_int p / 2 ^ k"
  shows "int_of_mul n c \<le> (n * p) div 2 ^ k"
proof -
  have "of_int n * fval c \<le> of_int n * (of_int p / 2 ^ k)"
    using c by (rule mult_left_mono) (simp add: n)
  then have "of_int n * fval c \<le> of_int (n * p) / 2 ^ k" by simp
  then have "dround (of_int n * fval c) \<le> dround (of_int (n * p) / 2 ^ k)"
    by (rule dround_mono)
  also have "\<dots> = of_int (n * p) / 2 ^ k"
    using np n p by (intro dround_exact_frac k) simp
  finally have "py_trunc (dround (of_int n * fval c)) \<le> py_trunc (of_int (n * p) / 2 ^ k)"
    by (rule py_trunc_mono)
  also have "\<dots> = (n * p) div 2 ^ k"
    using py_trunc_div [of "n * p" "2 ^ k"] n p by simp
  finally show ?thesis using n n53 by (simp add: int_of_mul_eq)
qed

lemma int_of_mul_ge:
  assumes n: "0 \<le> n" and p: "0 \<le> p" and np: "n * p < 2 ^ 53" and k: "k \<le> 1074"
    and n53: "n < 2 ^ 53" and c: "of_int p / 2 ^ k \<le> fval c"
  shows "(n * p) div 2 ^ k \<le> int_of_mul n c"
proof -
  have "of_int n * (of_int p / 2 ^ k) \<le> of_int n * fval c"
    using c by (rule mult_left_mono) (simp add: n)
  then have "of_int (n * p) / 2 ^ k \<le> of_int n * fval c" by simp
  then have "dround (of_int (n * p) / 2 ^ k) \<le> dround (of_int n * fval c)"
    by (rule dround_mono)
  moreover have "dround (of_int (n * p) / 2 ^ k) = of_int (n * p) / 2 ^ k"
    using np n p by (intro dround_exact_frac k) simp
  ultimately have "of_int (n * p) / 2 ^ k \<le> dround (of_int n * fval c)" by simp
  then have "py_trunc (of_int (n * p) / 2 ^ k) \<le> py_trunc (dround (of_int n * fval c))"
    by (rule py_trunc_mono)
  moreover have "py_trunc (of_int (n * p) / 2 ^ k) = (n * p) div 2 ^ k"
    using py_trunc_div [of "n * p" "2 ^ k"] n p by simp
  ultimately show ?thesis using n n53 by (simp add: int_of_mul_eq)
qed

lemma int_of_mul_lin:
  assumes n: "0 \<le> n" "n < 2 ^ 31" and pq: "0 \<le> p" "p \<le> 2 ^ 20" "0 \<le> q" "q \<le> 2 ^ 20"
    and k: "k \<le> 1074" "k' \<le> 1074"
    and c: "of_int p / 2 ^ k \<le> fval c" "fval c \<le> of_int q / 2 ^ k'"
  shows "n * p < 2 ^ k * (int_of_mul n c + 1) \<and> 2 ^ k' * int_of_mul n c \<le> n * q"
proof -
  have np: "n * p < 2 ^ 53" and nq: "n * q < 2 ^ 53"
  proof -
    have "n * p \<le> n * 2 ^ 20" and "n * q \<le> n * 2 ^ 20" using n pq by (simp_all add: mult_left_mono)
    moreover have "n * 2 ^ 20 < (2 ^ 53 :: int)" using n by simp
    ultimately show "n * p < 2 ^ 53" "n * q < 2 ^ 53" by linarith+
  qed
  have n53: "n < 2 ^ 53" using n by simp
  have lo: "(n * p) div 2 ^ k \<le> int_of_mul n c"
    using n(1) pq(1) np k(1) n53 c(1) by (rule int_of_mul_ge)
  have hi: "int_of_mul n c \<le> (n * q) div 2 ^ k'"
    using n(1) pq(3) nq k(2) n53 c(2) by (rule int_of_mul_le)
  have "(n * p) mod 2 ^ k < 2 ^ k" and "2 ^ k * ((n * p) div 2 ^ k) + (n * p) mod 2 ^ k = n * p"
    by (simp_all add: mult_div_mod_eq)
  then have "n * p < 2 ^ k * ((n * p) div 2 ^ k) + 2 ^ k" by linarith
  moreover have "2 ^ k * ((n * p) div 2 ^ k) \<le> 2 ^ k * int_of_mul n c"
    using lo by (rule mult_left_mono) simp
  moreover have "2 ^ k' * int_of_mul n c \<le> 2 ^ k' * ((n * q) div 2 ^ k')"
    using hi by (rule mult_left_mono) simp
  moreover have "2 ^ k' * ((n * q) div 2 ^ k') \<le> n * q"
  proof -
    have "0 \<le> (n * q) mod 2 ^ k'" and "2 ^ k' * ((n * q) div 2 ^ k') + (n * q) mod 2 ^ k' = n * q"
      by (simp_all add: mult_div_mod_eq)
    then show ?thesis by linarith
  qed
  ultimately have "n * p < 2 ^ k * int_of_mul n c + 2 ^ k" and "2 ^ k' * int_of_mul n c \<le> n * q"
    by linarith+
  then show ?thesis by (simp add: distrib_left)
qed

lemma int_of_mul_lit:
  assumes "0 \<le> n" "n < 2 ^ 31" "0 < b" "0 \<le> p" "p \<le> 2 ^ 20" "0 \<le> q" "q \<le> 2 ^ 20"
    and "of_int p / 1024 \<le> (of_int a / of_int b :: rat)" "(of_int a / of_int b :: rat) \<le> of_int q / 1024"
  shows "n * p < 1024 * (int_of_mul n (round_frac a b) + 1) \<and> 1024 * int_of_mul n (round_frac a b) \<le> n * q"
proof -
  have "of_int p / 2 ^ 10 \<le> fval (round_frac a b)"
    using assms by (intro round_frac_ge) simp_all
  moreover have "fval (round_frac a b) \<le> of_int q / 2 ^ 10"
    using assms by (intro round_frac_le) simp_all
  ultimately show ?thesis
    using int_of_mul_lin [of n p q 10 10 "round_frac a b"] assms by simp
qed

lemma int_of_mul_exact:
  assumes "0 \<le> n" "n < 2 ^ 31" "0 \<le> p" "p \<le> 2 ^ 20" "k \<le> 1074" "fval c = of_int p / 2 ^ k"
  shows "int_of_mul n c = (n * p) div 2 ^ k"
proof -
  have np: "n * p < 2 ^ 53"
  proof -
    have "n * p \<le> n * 2 ^ 20" using assms by (simp add: mult_left_mono)
    moreover have "n * 2 ^ 20 < (2 ^ 53 :: int)" using assms by simp
    ultimately show ?thesis by linarith
  qed
  have "n < 2 ^ 53" using assms by simp
  with assms np show ?thesis
    using int_of_mul_le [of n p k c] int_of_mul_ge [of n p k c] by simp
qed

lemma int_of_mul_mono_lit:
  assumes "0 \<le> n" "n < 2 ^ 53" "fval c \<le> fval d"
  shows "int_of_mul n c \<le> int_of_mul n d"
proof -
  have "of_int n * fval c \<le> of_int n * fval d"
    using assms(3) by (rule mult_left_mono) (simp add: assms(1))
  then have "dround (of_int n * fval c) \<le> dround (of_int n * fval d)" by (rule dround_mono)
  then show ?thesis using assms by (simp add: int_of_mul_eq py_trunc_mono)
qed

lemma int_of_mul_lit_mono:
  assumes "0 \<le> n" "n < 2 ^ 53" "0 < b" "0 < d" "(of_int a / of_int b :: rat) \<le> of_int c / of_int d"
  shows "int_of_mul n (round_frac a b) \<le> int_of_mul n (round_frac c d)"
  using assms by (intro int_of_mul_mono_lit) (simp_all add: fval_round_frac dround_mono)

lemma int_of_mul_lit_nonneg:
  assumes "0 \<le> n" "n < 2 ^ 53" "0 \<le> a" "0 < b"
  shows "0 \<le> int_of_mul n (round_frac a b)"
proof -
  have "0 \<le> dround (of_int a / of_int b)"
    by (rule dround_nonneg) (use assms in \<open>simp add: zero_le_divide_iff\<close>)
  then have "0 \<le> of_int n * dround (of_int a / of_int b)" using assms by simp
  then have "0 \<le> dround (of_int n * dround (of_int a / of_int b))" by (rule dround_nonneg)
  then show ?thesis using assms by (simp add: int_of_mul_eq fval_round_frac)
qed

lemma dround_of_int: "\<bar>n\<bar> < 2 ^ 53 \<Longrightarrow> dround (of_int n) = of_int n"
  using dround_exact [of n 0] by simp

lemma dround_between:
  assumes "of_int a \<le> x" "x \<le> of_int b" "\<bar>a\<bar> < 2 ^ 53" "\<bar>b\<bar> < 2 ^ 53"
  shows "of_int a \<le> dround x \<and> dround x \<le> of_int b"
  using dround_mono [OF assms(1)] dround_mono [OF assms(2)] assms(3,4) by (simp add: dround_of_int)

lemma ftrunc_between:
  assumes "of_int a \<le> fval x" "fval x \<le> of_int b"
  shows "a \<le> ftrunc x \<and> ftrunc x \<le> b"
  using py_trunc_mono [OF assms(1)] py_trunc_mono [OF assms(2)] by (simp add: ftrunc_eq)

text \<open>The rounding error: at most half a unit in the last place, so below \<open>2^(n-54)\<close> for
  every value below \<open>2^n\<close> in the normal range.\<close>

lemma rne_err: "\<bar>of_int (rne x) - x\<bar> \<le> 1 / 2"
  using rne_cases [of x] by (auto simp: abs_if) (use floor_correct [of x] in linarith)+

lemma dround_err: "\<bar>dround x - x\<bar> \<le> pow2 (fexp x) / 2"
proof (cases "x = 0")
  case False
  define y where "y = x / pow2 (fexp x)"
  have x: "x = y * pow2 (fexp x)" using pow2_nonzero [of "fexp x"] by (simp add: y_def)
  have "dround x - x = (of_int (rne y) - y) * pow2 (fexp x)"
    using False by (simp add: dround_def y_def [symmetric] left_diff_distrib x [symmetric])
  then have "\<bar>dround x - x\<bar> = \<bar>of_int (rne y) - y\<bar> * pow2 (fexp x)"
    by (simp add: abs_mult pow2_nonneg)
  also have "\<dots> \<le> 1 / 2 * pow2 (fexp x)"
    using rne_err [of y] pow2_nonneg [of "fexp x"] by (rule mult_right_mono)
  finally show ?thesis by simp
qed (simp add: pow2_nonneg)

lemma dround_err_pow2:
  assumes "\<bar>x\<bar> < 2 ^ n" and "n \<le> 1000"
  shows "\<bar>dround x - x\<bar> \<le> 2 ^ n / 2 ^ 54"
proof (cases "x = 0")
  case False
  then have "pow2 (rlog2 \<bar>x\<bar>) \<le> \<bar>x\<bar>" using rlog2_bounds [of "\<bar>x\<bar>"] by simp
  also have "\<dots> < pow2 (int n)" using assms(1) by (simp add: pow2_of_nat)
  finally have "rlog2 \<bar>x\<bar> < int n" by (simp only: pow2_less_iff)
  then have "fexp x \<le> int n - 53" using assms(2) by (simp add: fexp_def)
  then have "pow2 (fexp x) \<le> pow2 (int n - 53)" by (simp add: pow2_le_iff)
  also have "\<dots> = 2 ^ n / 2 ^ 53"
    using pow2_add [of "int n" "-53"] pow2_of_nat [of n] pow2_minus_nat [of 53] by simp
  finally show ?thesis using dround_err [of x] by simp
qed simp

declare round_frac_def [py_eval] round_pos_def [py_eval] scale_frac_def [py_eval]
  rne_div_def [py_eval] nbits.simps [py_eval] round_dyadic_def [py_eval]
  float_of_int_def [py_eval] fmul_def [py_eval] fadd_def [py_eval] fsub_def [py_eval]
  ftrunc_def [py_eval] int_of_mul_def [py_eval] int_truediv_def [py_eval]

end
