(* ===== verification/PilDraw.thy ===== *)
theory PilDraw
  imports Prelude
begin

text \<open>
  The part of Pillow the script drives: \<^verbatim>\<open>Image.new\<close>, \<^verbatim>\<open>ImageDraw.Draw\<close> with
  \<^verbatim>\<open>ellipse\<close>, \<^verbatim>\<open>rounded_rectangle\<close> and \<^verbatim>\<open>text\<close>.  Pillow is not code of
  the repository: what is modelled is its documented behaviour.  A draw call checks its
  box (\<open>x1 >= x0\<close>, \<open>y1 >= y0\<close>, else ValueError), converts the fill tuple to four
  bytes (each int clamped to 0..255), and overwrites every covered pixel of the canvas:
  a \<^verbatim>\<open>Draw\<close> on an RGBA image does not blend.  Which pixels a shape covers is the
  rasteriser's business; it is a parameter, constrained by \<open>raster_ok\<close>: a shape covers
  only pixels of its box, an ellipse covers the diamond inscribed in its box, a rounded
  rectangle covers its box minus the corner squares, and a glyph stays within its font's
  extent of the anchor.
\<close>

section \<open>Fonts, shapes, draw calls\<close>

text \<open>A font object: \<^verbatim>\<open>ImageFont.truetype(path, size)\<close> or \<^verbatim>\<open>ImageFont.load_default()\<close>.\<close>

datatype font = TrueType string int | DefaultFont

datatype shape =
    Ellipse bbox
  | RoundedRect bbox int
  | Text pixel string font

record draw_op =
  op_shape :: shape
  op_fill :: rgba_int

record image =
  img_mode :: string
  img_width :: nat
  img_height :: nat
  img_px :: "pixel \<Rightarrow> rgba"

type_synonym raster = "shape \<Rightarrow> pixel \<Rightarrow> bool"

definition clip8 :: "int \<Rightarrow> 8 word" where
  "clip8 v = (if v \<le> 0 then 0 else if v < 256 then word_of_int v else 255)"

definition ink :: "rgba_int \<Rightarrow> rgba" where
  "ink c = (case c of (r, g, b, a) \<Rightarrow> (clip8 r, clip8 g, clip8 b, clip8 a))"

text \<open>A fresh canvas of the given mode and size, every pixel the colour.  Pixels are
  stored as the four bytes of an RGBA image, the only mode the script creates.\<close>

definition image_new :: "string \<Rightarrow> nat \<Rightarrow> nat \<Rightarrow> rgba_int \<Rightarrow> image" where
  "image_new mode w h c = \<lparr>img_mode = mode, img_width = w, img_height = h, img_px = (\<lambda>_. ink c)\<rparr>"

text \<open>\<^verbatim>\<open>Image.new(mode, (w, h), colour)\<close>: \<^verbatim>\<open>_check_size\<close> refuses a negative width or
  height with a ValueError; \<^verbatim>\<open>core.fill\<close> parses the size as two C ints
  (\<^verbatim>\<open>"s(ii)"\<close>), an OverflowError above \<open>INT_MAX\<close>; and the line-size check of the C
  allocator (\<^verbatim>\<open>ImagingNewPrologueSubtype\<close>: \<open>xsize > INT_MAX / 4 - 1\<close>) refuses a wider
  canvas with a MemoryError.\<close>

definition pil_max_width :: int where
  "pil_max_width = 2147483647 div 4 - 1"

definition pil_new :: "string \<Rightarrow> int \<Rightarrow> int \<Rightarrow> rgba_int \<Rightarrow> image py_result" where
  "pil_new mode w h c =
     (if w < 0 \<or> h < 0 then Inl ValueError
      else if 2147483647 < w \<or> 2147483647 < h then Inl OverflowError
      else if pil_max_width < w then Inl MemoryError
      else Inr (image_new mode (nat w) (nat h) c))"

lemma pil_max_width_val [simp]: "pil_max_width = 536870910"
  by (simp add: pil_max_width_def)

definition in_canvas :: "image \<Rightarrow> pixel \<Rightarrow> bool" where
  "in_canvas img p = (case p of (x, y) \<Rightarrow>
     0 \<le> x \<and> x < int (img_width img) \<and> 0 \<le> y \<and> y < int (img_height img))"

fun box_ordered :: "shape \<Rightarrow> bool" where
  "box_ordered (Ellipse (x0, y0, x1, y1)) = (x0 \<le> x1 \<and> y0 \<le> y1)"
| "box_ordered (RoundedRect (x0, y0, x1, y1) _) = (x0 \<le> x1 \<and> y0 \<le> y1)"
| "box_ordered (Text _ _ _) = True"

text \<open>One draw call: the ValueError of an inverted box, else the covered pixels of the
  canvas overwritten with the ink.\<close>

definition draw :: "raster \<Rightarrow> image \<Rightarrow> draw_op \<Rightarrow> image py_result" where
  "draw r img d =
     (if box_ordered (op_shape d)
      then Inr (img\<lparr>img_px := (\<lambda>p. if in_canvas img p \<and> r (op_shape d) p
                                    then ink (op_fill d) else img_px img p)\<rparr>)
      else Inl ValueError)"

fun render :: "raster \<Rightarrow> image \<Rightarrow> draw_op list \<Rightarrow> image py_result" where
  "render r img [] = Inr img"
| "render r img (d # ds) = sbind (draw r img d) (\<lambda>img'. render r img' ds)"

section \<open>The rasteriser's contract\<close>

fun font_extent :: "font \<Rightarrow> int" where
  "font_extent (TrueType _ sz) = sz"
| "font_extent DefaultFont = 16"

fun shape_box :: "shape \<Rightarrow> pixel \<Rightarrow> bool" where
  "shape_box (Ellipse b) p = in_bbox b p"
| "shape_box (RoundedRect b _) p = in_bbox b p"
| "shape_box (Text (ax, ay) _ f) (x, y) = (\<bar>x - ax\<bar> \<le> font_extent f \<and> \<bar>y - ay\<bar> \<le> font_extent f)"

definition in_diamond :: "bbox \<Rightarrow> pixel \<Rightarrow> bool" where
  "in_diamond b p = (case b of (x0, y0, x1, y1) \<Rightarrow> case p of (x, y) \<Rightarrow>
     in_bbox b p \<and>
     \<bar>2 * x - (x0 + x1)\<bar> * (y1 - y0) + \<bar>2 * y - (y0 + y1)\<bar> * (x1 - x0) \<le> (x1 - x0) * (y1 - y0))"

definition in_cross :: "bbox \<Rightarrow> int \<Rightarrow> pixel \<Rightarrow> bool" where
  "in_cross b rad p = (case b of (x0, y0, x1, y1) \<Rightarrow> case p of (x, y) \<Rightarrow>
     (x0 + rad \<le> x \<and> x \<le> x1 - rad \<and> y0 \<le> y \<and> y \<le> y1) \<or>
     (x0 \<le> x \<and> x \<le> x1 \<and> y0 + rad \<le> y \<and> y \<le> y1 - rad))"

definition raster_ok :: "raster \<Rightarrow> bool" where
  "raster_ok r \<longleftrightarrow>
     (\<forall>s p. r s p \<longrightarrow> shape_box s p) \<and>
     (\<forall>b p. in_diamond b p \<longrightarrow> r (Ellipse b) p) \<and>
     (\<forall>b rad p. in_bbox b p \<and> in_cross b rad p \<longrightarrow> r (RoundedRect b rad) p)"

text \<open>
  An instance of the contract: the ideal shapes (the ellipse inscribed in its box, the
  rectangle with quarter discs at its corners).  Glyph outlines are data of the font
  file, which the development does not read; this instance inks the glyph's em box
  around the anchor, half as wide as it is high.
\<close>

definition in_disc :: "int \<Rightarrow> int \<Rightarrow> int \<Rightarrow> pixel \<Rightarrow> bool" where
  "in_disc cx cy rad p = (case p of (x, y) \<Rightarrow> (x - cx)\<^sup>2 + (y - cy)\<^sup>2 \<le> rad\<^sup>2)"

fun ideal_raster :: raster where
  "ideal_raster (Ellipse (x0, y0, x1, y1)) (x, y) =
     (in_bbox (x0, y0, x1, y1) (x, y) \<and>
      (2 * x - (x0 + x1))\<^sup>2 * (y1 - y0)\<^sup>2 + (2 * y - (y0 + y1))\<^sup>2 * (x1 - x0)\<^sup>2
        \<le> (x1 - x0)\<^sup>2 * (y1 - y0)\<^sup>2)"
| "ideal_raster (RoundedRect (x0, y0, x1, y1) rad) (x, y) =
     (in_bbox (x0, y0, x1, y1) (x, y) \<and>
      (in_cross (x0, y0, x1, y1) rad (x, y) \<or>
       in_disc (x0 + rad) (y0 + rad) rad (x, y) \<or> in_disc (x1 - rad) (y0 + rad) rad (x, y) \<or>
       in_disc (x0 + rad) (y1 - rad) rad (x, y) \<or> in_disc (x1 - rad) (y1 - rad) rad (x, y)))"
| "ideal_raster (Text (ax, ay) _ f) (x, y) =
     (\<bar>x - ax\<bar> \<le> font_extent f div 4 \<and> \<bar>y - ay\<bar> \<le> font_extent f div 2)"

section \<open>Drawing keeps the canvas; the painter's algorithm\<close>

lemma draw_Inr_iff: "(\<exists>img'. draw r img d = Inr img') \<longleftrightarrow> box_ordered (op_shape d)"
  by (simp add: draw_def)

lemma draw_frame:
  assumes "draw r img d = Inr img'"
  shows "img_mode img' = img_mode img \<and> img_width img' = img_width img \<and> img_height img' = img_height img"
  using assms by (auto simp: draw_def split: if_splits)

lemma draw_in_canvas: "draw r img d = Inr img' \<Longrightarrow> in_canvas img' = in_canvas img"
  by (auto simp: draw_def in_canvas_def split: if_splits)

lemma render_frame:
  "render r img ds = Inr img' \<Longrightarrow>
   img_mode img' = img_mode img \<and> img_width img' = img_width img \<and> img_height img' = img_height img"
proof (induction ds arbitrary: img)
  case (Cons d ds)
  then obtain img1 where d: "draw r img d = Inr img1" and rest: "render r img1 ds = Inr img'"
    by (auto simp: sbind_eq_Inr_iff)
  from Cons.IH [OF rest] draw_frame [OF d] show ?case by simp
qed simp

text \<open>The reference: the ink of the last shape in draw order that covers the pixel.\<close>

definition topmost :: "raster \<Rightarrow> draw_op list \<Rightarrow> pixel \<Rightarrow> draw_op option" where
  "topmost r ds p = find (\<lambda>d. r (op_shape d) p) (rev ds)"

definition painted :: "raster \<Rightarrow> image \<Rightarrow> draw_op list \<Rightarrow> pixel \<Rightarrow> rgba" where
  "painted r img ds p =
     (if in_canvas img p then (case topmost r ds p of None \<Rightarrow> img_px img p | Some d \<Rightarrow> ink (op_fill d))
      else img_px img p)"

lemma topmost_snoc:
  "topmost r (ds @ [d]) p = (if r (op_shape d) p then Some d else topmost r ds p)"
  by (simp add: topmost_def)

lemma render_snoc:
  "render r img (ds @ [d]) = sbind (render r img ds) (\<lambda>img'. draw r img' d)"
  by (induction ds arbitrary: img) (simp_all add: sbind_def split: sum.splits)

lemma render_painted:
  "render r img ds = Inr img' \<Longrightarrow> img_px img' = painted r img ds"
proof (induction ds arbitrary: img' rule: rev_induct)
  case Nil
  then show ?case by (simp add: painted_def topmost_def fun_eq_iff)
next
  case (snoc d ds)
  then obtain img1 where r1: "render r img ds = Inr img1" and d: "draw r img1 d = Inr img'"
    by (auto simp: render_snoc sbind_eq_Inr_iff)
  have c: "in_canvas img1 = in_canvas img"
    using render_frame [OF r1] by (simp add: in_canvas_def fun_eq_iff)
  have ih: "img_px img1 q = painted r img ds q" for q
    using snoc.IH [OF r1] by simp
  show ?case
  proof
    fix q
    show "img_px img' q = painted r img (ds @ [d]) q"
      using d c ih [of q] by (auto simp: draw_def painted_def topmost_snoc split: if_splits)
  qed
qed

lemma render_Inr_iff:
  "(\<exists>img'. render r img ds = Inr img') \<longleftrightarrow> (\<forall>d\<in>set ds. box_ordered (op_shape d))"
proof (induction ds arbitrary: img)
  case (Cons d ds)
  show ?case
  proof (cases "box_ordered (op_shape d)")
    case True
    then obtain img1 where "draw r img d = Inr img1" using draw_Inr_iff by blast
    with Cons.IH [of img1] True show ?thesis by simp
  next
    case False
    then have "draw r img d = Inl ValueError" by (simp add: draw_def)
    with False show ?thesis by simp
  qed
qed simp

section \<open>The ideal rasteriser meets the contract\<close>

lemma sq_sum_le:
  fixes a b c :: int
  assumes "0 \<le> a" "0 \<le> b" "a + b \<le> c"
  shows "a\<^sup>2 + b\<^sup>2 \<le> c\<^sup>2"
proof -
  have "a\<^sup>2 + b\<^sup>2 \<le> (a + b)\<^sup>2" using assms by (simp add: power2_sum)
  also have "\<dots> \<le> c\<^sup>2" using assms by (intro power_mono) simp_all
  finally show ?thesis .
qed

lemma ideal_raster_ellipse:
  assumes "in_diamond b p"
  shows "ideal_raster (Ellipse b) p"
proof (cases b; cases p)
  fix x0 y0 x1 y1 x y
  assume bp: "b = (x0, y0, x1, y1)" "p = (x, y)"
  define u where "u = \<bar>2 * x - (x0 + x1)\<bar>"
  define v where "v = \<bar>2 * y - (y0 + y1)\<bar>"
  from assms bp have box: "x0 \<le> x1 \<and> y0 \<le> y1" and inb: "in_bbox b p"
    by (auto simp: in_diamond_def in_bbox_def)
  from assms bp have "u * (y1 - y0) + v * (x1 - x0) \<le> (x1 - x0) * (y1 - y0)"
    by (simp add: in_diamond_def u_def v_def)
  then have "(u * (y1 - y0))\<^sup>2 + (v * (x1 - x0))\<^sup>2 \<le> ((x1 - x0) * (y1 - y0))\<^sup>2"
    using box by (intro sq_sum_le) (simp_all add: u_def v_def)
  then show ?thesis
    using inb bp by (simp add: u_def v_def power_mult_distrib)
qed

theorem ideal_raster_ok: "raster_ok ideal_raster"
proof -
  have sound: "ideal_raster s p \<Longrightarrow> shape_box s p" for s p
  proof (induction s p rule: ideal_raster.induct)
    case (3 ax ay str f x y)
    then have "\<bar>x - ax\<bar> \<le> font_extent f div 4" and "\<bar>y - ay\<bar> \<le> font_extent f div 2"
      by simp_all
    moreover have "4 * (font_extent f div 4) + font_extent f mod 4 = font_extent f"
      and "0 \<le> font_extent f mod 4"
      and "2 * (font_extent f div 2) + font_extent f mod 2 = font_extent f"
      and "0 \<le> font_extent f mod 2"
      by simp_all
    ultimately show ?case by simp linarith
  qed (simp_all add: in_bbox_def)
  show ?thesis
    unfolding raster_ok_def
    by (auto simp: sound ideal_raster_ellipse in_bbox_def split: prod.splits)
qed

section \<open>Facts the icon proofs share\<close>

lemma render_append:
  "render r img (ds @ es) = sbind (render r img ds) (\<lambda>img'. render r img' es)"
  by (induction ds arbitrary: img) (simp_all add: sbind_def split: sum.splits)

lemma find_append_opt:
  "find P (xs @ ys) = (case find P xs of None \<Rightarrow> find P ys | Some x \<Rightarrow> Some x)"
  by (induction xs) auto

lemma find_Some_set: "find P xs = Some x \<Longrightarrow> x \<in> set xs \<and> P x"
  by (induction xs) (auto split: if_splits)

lemma topmost_append:
  "topmost r (ds @ es) p = (case topmost r es p of None \<Rightarrow> topmost r ds p | Some d \<Rightarrow> Some d)"
  unfolding topmost_def by (simp add: find_append_opt)

lemma topmost_Some: "topmost r ds p = Some d \<Longrightarrow> d \<in> set ds \<and> r (op_shape d) p"
  unfolding topmost_def by (drule find_Some_set) simp

lemma topmost_None_iff: "topmost r ds p = None \<longleftrightarrow> (\<forall>d\<in>set ds. \<not> r (op_shape d) p)"
  by (auto simp: topmost_def find_None_iff)

lemma raster_ok_sound: "raster_ok r \<Longrightarrow> r s p \<Longrightarrow> shape_box s p"
  unfolding raster_ok_def by blast

lemma raster_ok_ellipse: "raster_ok r \<Longrightarrow> in_diamond b p \<Longrightarrow> r (Ellipse b) p"
  unfolding raster_ok_def by blast

lemma raster_ok_rect: "raster_ok r \<Longrightarrow> in_bbox b p \<Longrightarrow> in_cross b rad p \<Longrightarrow> r (RoundedRect b rad) p"
  unfolding raster_ok_def by blast

lemma ink_alpha: "snd (snd (snd (ink c))) = clip8 (snd (snd (snd c)))"
  by (cases c) (simp add: ink_def)

lemma clip8_255 [simp]: "clip8 255 = 255"
  by (simp add: clip8_def)

lemma image_new_frame [simp]:
  "img_mode (image_new m w h c) = m" "img_width (image_new m w h c) = w" "img_height (image_new m w h c) = h"
  by (simp_all add: image_new_def)

lemma in_canvas_image_new [simp]:
  "in_canvas (image_new m w h c) (x, y) \<longleftrightarrow> 0 \<le> x \<and> x < int w \<and> 0 \<le> y \<and> y < int h"
  by (simp add: in_canvas_def)

end
