(* ===== verification/Geometry.thy ===== *)
theory Geometry
  imports PyFloat PilDraw
begin

text \<open>
  The shape descriptors of \<^verbatim>\<open>create_app_icon\<close> (src/assets/icons/create_icon.py): the
  proportional constants of the main icon (lines 21--22, 36--39, 47, 53--56, 63, 69--71)
  and of the adaptive foreground (lines 100--103, 111, 117--119), each a Python
  \<open>int(x * c)\<close> with \<open>c\<close> a float literal.  The script fixes \<open>size = 1024\<close>
  (line 16); the descriptors are written for any size \<open>sz\<close>, which the spec asks about, and
  the draw calls they feed are the records \<open>draw_op\<close> of PilDraw.  Decimal literals are
  the binary64 values \<open>round_frac a b\<close> of the fractions they denote.
\<close>

section \<open>The main icon\<close>

record main_geom =
  center :: int
  radius :: int
  wallet_left :: int
  wallet_top :: int
  wallet_width :: int
  wallet_height :: int
  flap_height :: int
  card_left :: int
  card_top :: int
  card_width :: int
  card_height :: int
  stripe_height :: int
  dollar_x :: int
  dollar_y :: int
  dollar_radius :: int

definition main_geometry :: "int \<Rightarrow> main_geom" where
  "main_geometry sz =
    (let center = sz div 2;
         radius = int_of_mul sz (round_frac 47 100);
         wallet_left = int_of_mul sz (round_frac 25 100);
         wallet_top = int_of_mul sz (round_frac 35 100);
         wallet_width = int_of_mul sz (round_frac 5 10);
         wallet_height = int_of_mul sz (round_frac 3 10);
         flap_height = int_of_mul wallet_height (round_frac 25 100);
         card_left = wallet_left + int_of_mul wallet_width (round_frac 15 100);
         card_top = wallet_top + int_of_mul wallet_height (round_frac 4 10);
         card_width = int_of_mul wallet_width (round_frac 55 100);
         card_height = int_of_mul wallet_height (round_frac 45 100);
         stripe_height = int_of_mul card_height (round_frac 25 100);
         dollar_x = wallet_left + int_of_mul wallet_width (round_frac 8 10);
         dollar_y = wallet_top + int_of_mul wallet_height (round_frac 6 10);
         dollar_radius = int_of_mul sz (round_frac 6 100)
     in \<lparr>center = center, radius = radius, wallet_left = wallet_left, wallet_top = wallet_top,
         wallet_width = wallet_width, wallet_height = wallet_height, flap_height = flap_height,
         card_left = card_left, card_top = card_top, card_width = card_width,
         card_height = card_height, stripe_height = stripe_height, dollar_x = dollar_x,
         dollar_y = dollar_y, dollar_radius = dollar_radius\<rparr>)"

text \<open>The draw calls of lines 42--44, 48--50, 58--60, 64--66, 74--76 and 89.\<close>

definition wallet_op :: "main_geom \<Rightarrow> draw_op" where
  "wallet_op g = \<lparr>op_shape = RoundedRect (wallet_left g, wallet_top g,
       wallet_left g + wallet_width g, wallet_top g + wallet_height g) 20,
     op_fill = (30, 41, 59, 240)\<rparr>"

definition flap_op :: "main_geom \<Rightarrow> draw_op" where
  "flap_op g = \<lparr>op_shape = RoundedRect (wallet_left g, wallet_top g,
       wallet_left g + wallet_width g, wallet_top g + flap_height g) 20,
     op_fill = (71, 85, 105, 255)\<rparr>"

definition card_op :: "main_geom \<Rightarrow> draw_op" where
  "card_op g = \<lparr>op_shape = RoundedRect (card_left g, card_top g,
       card_left g + card_width g, card_top g + card_height g) 12,
     op_fill = (16, 185, 129, 255)\<rparr>"

definition stripe_op :: "main_geom \<Rightarrow> draw_op" where
  "stripe_op g = \<lparr>op_shape = RoundedRect (card_left g, card_top g,
       card_left g + card_width g, card_top g + stripe_height g) 12,
     op_fill = (6, 95, 70, 255)\<rparr>"

definition coin_op :: "main_geom \<Rightarrow> draw_op" where
  "coin_op g = \<lparr>op_shape = Ellipse (dollar_x g - dollar_radius g, dollar_y g - dollar_radius g,
       dollar_x g + dollar_radius g, dollar_y g + dollar_radius g),
     op_fill = (245, 158, 11, 255)\<rparr>"

definition glyph_op :: "main_geom \<Rightarrow> font \<Rightarrow> draw_op" where
  "glyph_op g f = \<lparr>op_shape = Text (dollar_x g, dollar_y g) ''$'' f, op_fill = (255, 255, 255, 255)\<rparr>"

section \<open>The adaptive foreground\<close>

record fg_geom =
  fg_wallet_size :: int
  fg_wallet_left :: int
  fg_wallet_top :: int
  fg_wallet_height :: int
  flap_h :: int
  dollar_center_x :: int
  dollar_center_y :: int
  dollar_bg_radius :: int

definition fg_geometry :: "int \<Rightarrow> fg_geom" where
  "fg_geometry sz =
    (let fg_wallet_size = int_of_mul sz (round_frac 6 10);
         fg_wallet_left = (sz - fg_wallet_size) div 2;
         fg_wallet_top = int_of_mul sz (round_frac 3 10);
         fg_wallet_height = int_of_mul fg_wallet_size (round_frac 6 10);
         flap_h = int_of_mul fg_wallet_height (round_frac 3 10);
         dollar_center_x = sz div 2;
         dollar_center_y = fg_wallet_top + int_of_mul fg_wallet_height (round_frac 65 100);
         dollar_bg_radius = int_of_mul sz (round_frac 8 100)
     in \<lparr>fg_wallet_size = fg_wallet_size, fg_wallet_left = fg_wallet_left,
         fg_wallet_top = fg_wallet_top, fg_wallet_height = fg_wallet_height, flap_h = flap_h,
         dollar_center_x = dollar_center_x, dollar_center_y = dollar_center_y,
         dollar_bg_radius = dollar_bg_radius\<rparr>)"

text \<open>The draw calls of lines 106--108, 112--114, 121--123 and 134--135.\<close>

definition fg_wallet_op :: "fg_geom \<Rightarrow> draw_op" where
  "fg_wallet_op g = \<lparr>op_shape = RoundedRect (fg_wallet_left g, fg_wallet_top g,
       fg_wallet_left g + fg_wallet_size g, fg_wallet_top g + fg_wallet_height g) 30,
     op_fill = (30, 41, 59, 255)\<rparr>"

definition fg_flap_op :: "fg_geom \<Rightarrow> draw_op" where
  "fg_flap_op g = \<lparr>op_shape = RoundedRect (fg_wallet_left g, fg_wallet_top g,
       fg_wallet_left g + fg_wallet_size g, fg_wallet_top g + flap_h g) 30,
     op_fill = (71, 85, 105, 255)\<rparr>"

definition fg_coin_op :: "fg_geom \<Rightarrow> draw_op" where
  "fg_coin_op g = \<lparr>op_shape = Ellipse (dollar_center_x g - dollar_bg_radius g,
       dollar_center_y g - dollar_bg_radius g, dollar_center_x g + dollar_bg_radius g,
       dollar_center_y g + dollar_bg_radius g),
     op_fill = (245, 158, 11, 255)\<rparr>"

definition fg_glyph_op :: "fg_geom \<Rightarrow> font \<Rightarrow> draw_op" where
  "fg_glyph_op g f = \<lparr>op_shape = Text (dollar_center_x g, dollar_center_y g) ''$'' f,
     op_fill = (255, 255, 255, 255)\<rparr>"

definition main_shapes :: "main_geom \<Rightarrow> font \<Rightarrow> draw_op list" where
  "main_shapes g f = [wallet_op g, flap_op g, card_op g, stripe_op g, coin_op g, glyph_op g f]"

definition fg_shapes :: "fg_geom \<Rightarrow> font \<Rightarrow> draw_op list" where
  "fg_shapes g f = [fg_wallet_op g, fg_flap_op g, fg_coin_op g, fg_glyph_op g f]"

section \<open>Every shape on the canvas\<close>

fun op_inside :: "nat \<Rightarrow> draw_op \<Rightarrow> bool" where
  "op_inside n d = (case op_shape d of
      Ellipse b \<Rightarrow> bbox_inside n b
    | RoundedRect b _ \<Rightarrow> bbox_inside n b
    | Text (x, y) _ _ \<Rightarrow> 0 \<le> x \<and> x < int n \<and> 0 \<le> y \<and> y < int n)"

declare main_geometry_def [geom_defs] fg_geometry_def [geom_defs]

lemma check_1024: "main_geometry 1024 = \<lparr>center = 512, radius = 481, wallet_left = 256, wallet_top = 358,
   wallet_width = 512, wallet_height = 307, flap_height = 76, card_left = 332, card_top = 480,
   card_width = 281, card_height = 138, stripe_height = 34, dollar_x = 665, dollar_y = 542,
   dollar_radius = 61\<rparr>"
  by code_simp

lemma check_fg_1024: "fg_geometry 1024 = \<lparr>fg_wallet_size = 614, fg_wallet_left = 205, fg_wallet_top = 307,
   fg_wallet_height = 368, flap_h = 110, dollar_center_x = 512, dollar_center_y = 546, dollar_bg_radius = 81\<rparr>"
  by code_simp

lemma op_inside_rect:
  "op_inside n \<lparr>op_shape = RoundedRect (x0, y0, x1, y1) rad, op_fill = c\<rparr> \<longleftrightarrow>
   0 \<le> x0 \<and> x0 \<le> x1 \<and> x1 < int n \<and> 0 \<le> y0 \<and> y0 \<le> y1 \<and> y1 < int n"
  by (simp add: bbox_inside_def)

lemma op_inside_ellipse:
  "op_inside n \<lparr>op_shape = Ellipse (x0, y0, x1, y1), op_fill = c\<rparr> \<longleftrightarrow>
   0 \<le> x0 \<and> x0 \<le> x1 \<and> x1 < int n \<and> 0 \<le> y0 \<and> y0 \<le> y1 \<and> y1 < int n"
  by (simp add: bbox_inside_def)

lemma op_inside_text:
  "op_inside n \<lparr>op_shape = Text (x, y) t f, op_fill = c\<rparr> \<longleftrightarrow>
   0 \<le> x \<and> x < int n \<and> 0 \<le> y \<and> y < int n"
  by simp

lemma int_of_mul_half:
  "0 \<le> n \<Longrightarrow> n < 2 ^ 31 \<Longrightarrow> int_of_mul n (round_frac 5 10) = n div 2"
  using int_of_mul_exact [of n 1 1 "round_frac 5 10"] dround_exact_frac [of 1 1]
  by (simp add: fval_round_frac)

lemma int_of_mul_quarter:
  "0 \<le> n \<Longrightarrow> n < 2 ^ 31 \<Longrightarrow> int_of_mul n (round_frac 25 100) = n div 4"
  using int_of_mul_exact [of n 1 2 "round_frac 25 100"] dround_exact_frac [of 1 2]
  by (simp add: fval_round_frac)

lemma div_lin: "0 < (m::int) \<Longrightarrow> m * (a div m) \<le> a \<and> a < m * (a div m) + m"
proof -
  assume m: "0 < m"
  have "m * (a div m) + a mod m = a" by (rule mult_div_mod_eq)
  moreover have "0 \<le> a mod m" "a mod m < m" using m by simp_all
  ultimately show ?thesis by linarith
qed

lemma int_of_mul_lit_nn:
  assumes "0 \<le> n" "n < 2 ^ 31" "0 \<le> a" "0 < b" "0 \<le> p" "p \<le> 2 ^ 20" "0 \<le> q" "q \<le> 2 ^ 20"
    and "of_int p / 1024 \<le> (of_int a / of_int b :: rat)" "(of_int a / of_int b :: rat) \<le> of_int q / 1024"
  shows "0 \<le> int_of_mul n (round_frac a b) \<and> n * p < 1024 * (int_of_mul n (round_frac a b) + 1) \<and>
    1024 * int_of_mul n (round_frac a b) \<le> n * q"
  using int_of_mul_lit [of n b p q a] int_of_mul_lit_nonneg [of n a b] assms by simp

lemma mg_fields:
  "center (main_geometry sz) = sz div 2"
  "radius (main_geometry sz) = int_of_mul sz (round_frac 47 100)"
  "wallet_left (main_geometry sz) = int_of_mul sz (round_frac 25 100)"
  "wallet_top (main_geometry sz) = int_of_mul sz (round_frac 35 100)"
  "wallet_width (main_geometry sz) = int_of_mul sz (round_frac 5 10)"
  "wallet_height (main_geometry sz) = int_of_mul sz (round_frac 3 10)"
  "flap_height (main_geometry sz) = int_of_mul (wallet_height (main_geometry sz)) (round_frac 25 100)"
  "card_left (main_geometry sz) - wallet_left (main_geometry sz) =
     int_of_mul (wallet_width (main_geometry sz)) (round_frac 15 100)"
  "card_top (main_geometry sz) - wallet_top (main_geometry sz) =
     int_of_mul (wallet_height (main_geometry sz)) (round_frac 4 10)"
  "card_width (main_geometry sz) = int_of_mul (wallet_width (main_geometry sz)) (round_frac 55 100)"
  "card_height (main_geometry sz) = int_of_mul (wallet_height (main_geometry sz)) (round_frac 45 100)"
  "stripe_height (main_geometry sz) = int_of_mul (card_height (main_geometry sz)) (round_frac 25 100)"
  "dollar_x (main_geometry sz) - wallet_left (main_geometry sz) =
     int_of_mul (wallet_width (main_geometry sz)) (round_frac 8 10)"
  "dollar_y (main_geometry sz) - wallet_top (main_geometry sz) =
     int_of_mul (wallet_height (main_geometry sz)) (round_frac 6 10)"
  "dollar_radius (main_geometry sz) = int_of_mul sz (round_frac 6 100)"
  by (simp_all add: main_geometry_def Let_def)

lemma mg_center: "0 \<le> sz \<Longrightarrow> sz < 2 ^ 31 \<Longrightarrow> 0 \<le> center (main_geometry sz) \<and>
    2 * center (main_geometry sz) \<le> sz \<and> sz < 2 * center (main_geometry sz) + 2"
  using div_lin [of 2 sz] by (simp add: mg_fields)

lemma mg_radius: "0 \<le> sz \<Longrightarrow> sz < 2 ^ 31 \<Longrightarrow> 0 \<le> radius (main_geometry sz) \<and>
    sz * 481 < 1024 * (radius (main_geometry sz) + 1) \<and> 1024 * radius (main_geometry sz) \<le> sz * 482"
  using int_of_mul_lit_nn [of sz 47 100 481 482] by (simp add: mg_fields)

lemma mg_wallet_left: "0 \<le> sz \<Longrightarrow> sz < 2 ^ 31 \<Longrightarrow> 0 \<le> wallet_left (main_geometry sz) \<and>
    4 * wallet_left (main_geometry sz) \<le> sz \<and> sz < 4 * wallet_left (main_geometry sz) + 4"
  using div_lin [of 4 sz] by (simp add: mg_fields int_of_mul_quarter)

lemma mg_wallet_top: "0 \<le> sz \<Longrightarrow> sz < 2 ^ 31 \<Longrightarrow> 0 \<le> wallet_top (main_geometry sz) \<and>
    sz * 358 < 1024 * (wallet_top (main_geometry sz) + 1) \<and> 1024 * wallet_top (main_geometry sz) \<le> sz * 359"
  using int_of_mul_lit_nn [of sz 35 100 358 359] by (simp add: mg_fields)

lemma mg_wallet_width: "0 \<le> sz \<Longrightarrow> sz < 2 ^ 31 \<Longrightarrow> 0 \<le> wallet_width (main_geometry sz) \<and>
    2 * wallet_width (main_geometry sz) \<le> sz \<and> sz < 2 * wallet_width (main_geometry sz) + 2"
  using div_lin [of 2 sz] by (simp add: mg_fields int_of_mul_half)

lemma mg_wallet_height: "0 \<le> sz \<Longrightarrow> sz < 2 ^ 31 \<Longrightarrow> 0 \<le> wallet_height (main_geometry sz) \<and>
    sz * 307 < 1024 * (wallet_height (main_geometry sz) + 1) \<and> 1024 * wallet_height (main_geometry sz) \<le> sz * 308"
  using int_of_mul_lit_nn [of sz 3 10 307 308] by (simp add: mg_fields)

lemma mg_W: "0 \<le> sz \<Longrightarrow> sz < 2 ^ 31 \<Longrightarrow>
    0 \<le> wallet_width (main_geometry sz) \<and> wallet_width (main_geometry sz) < 2 ^ 31"
  using mg_wallet_width [of sz] by simp

lemma mg_H: "0 \<le> sz \<Longrightarrow> sz < 2 ^ 31 \<Longrightarrow>
    0 \<le> wallet_height (main_geometry sz) \<and> wallet_height (main_geometry sz) < 2 ^ 31"
  using mg_wallet_height [of sz] by simp

lemma mg_flap: "0 \<le> sz \<Longrightarrow> sz < 2 ^ 31 \<Longrightarrow> 0 \<le> flap_height (main_geometry sz) \<and>
    4 * flap_height (main_geometry sz) \<le> wallet_height (main_geometry sz) \<and>
    wallet_height (main_geometry sz) < 4 * flap_height (main_geometry sz) + 4"
  using mg_H [of sz] div_lin [of 4 "wallet_height (main_geometry sz)"]
  by (simp add: mg_fields(7) int_of_mul_quarter)

lemma mg_card_left: "0 \<le> sz \<Longrightarrow> sz < 2 ^ 31 \<Longrightarrow>
    0 \<le> card_left (main_geometry sz) - wallet_left (main_geometry sz) \<and>
    wallet_width (main_geometry sz) * 153 < 1024 * (card_left (main_geometry sz) - wallet_left (main_geometry sz) + 1) \<and>
    1024 * (card_left (main_geometry sz) - wallet_left (main_geometry sz)) \<le> wallet_width (main_geometry sz) * 154"
  using mg_W [of sz] int_of_mul_lit_nn [of "wallet_width (main_geometry sz)" 15 100 153 154]
  by (simp only: mg_fields(8)) simp

lemma mg_card_top: "0 \<le> sz \<Longrightarrow> sz < 2 ^ 31 \<Longrightarrow>
    0 \<le> card_top (main_geometry sz) - wallet_top (main_geometry sz) \<and>
    wallet_height (main_geometry sz) * 409 < 1024 * (card_top (main_geometry sz) - wallet_top (main_geometry sz) + 1) \<and>
    1024 * (card_top (main_geometry sz) - wallet_top (main_geometry sz)) \<le> wallet_height (main_geometry sz) * 410"
  using mg_H [of sz] int_of_mul_lit_nn [of "wallet_height (main_geometry sz)" 4 10 409 410]
  by (simp only: mg_fields(9)) simp

lemma mg_card_width: "0 \<le> sz \<Longrightarrow> sz < 2 ^ 31 \<Longrightarrow> 0 \<le> card_width (main_geometry sz) \<and>
    wallet_width (main_geometry sz) * 563 < 1024 * (card_width (main_geometry sz) + 1) \<and>
    1024 * card_width (main_geometry sz) \<le> wallet_width (main_geometry sz) * 564"
  using mg_W [of sz] int_of_mul_lit_nn [of "wallet_width (main_geometry sz)" 55 100 563 564]
  by (simp only: mg_fields(10)) simp

lemma mg_card_height: "0 \<le> sz \<Longrightarrow> sz < 2 ^ 31 \<Longrightarrow> 0 \<le> card_height (main_geometry sz) \<and>
    wallet_height (main_geometry sz) * 460 < 1024 * (card_height (main_geometry sz) + 1) \<and>
    1024 * card_height (main_geometry sz) \<le> wallet_height (main_geometry sz) * 461"
  using mg_H [of sz] int_of_mul_lit_nn [of "wallet_height (main_geometry sz)" 45 100 460 461]
  by (simp only: mg_fields(11)) simp

lemma mg_stripe: "0 \<le> sz \<Longrightarrow> sz < 2 ^ 31 \<Longrightarrow> 0 \<le> stripe_height (main_geometry sz) \<and>
    4 * stripe_height (main_geometry sz) \<le> card_height (main_geometry sz) \<and>
    card_height (main_geometry sz) < 4 * stripe_height (main_geometry sz) + 4"
proof -
  assume s: "0 \<le> sz" "sz < 2 ^ 31"
  have "0 \<le> card_height (main_geometry sz) \<and> card_height (main_geometry sz) < 2 ^ 31"
    using mg_card_height [OF s] mg_H [OF s] by simp
  then show ?thesis
    using div_lin [of 4 "card_height (main_geometry sz)"] by (simp add: mg_fields(12) int_of_mul_quarter)
qed

lemma mg_dollar_x: "0 \<le> sz \<Longrightarrow> sz < 2 ^ 31 \<Longrightarrow>
    0 \<le> dollar_x (main_geometry sz) - wallet_left (main_geometry sz) \<and>
    wallet_width (main_geometry sz) * 819 < 1024 * (dollar_x (main_geometry sz) - wallet_left (main_geometry sz) + 1) \<and>
    1024 * (dollar_x (main_geometry sz) - wallet_left (main_geometry sz)) \<le> wallet_width (main_geometry sz) * 820"
  using mg_W [of sz] int_of_mul_lit_nn [of "wallet_width (main_geometry sz)" 8 10 819 820]
  by (simp only: mg_fields(13)) simp

lemma mg_dollar_y: "0 \<le> sz \<Longrightarrow> sz < 2 ^ 31 \<Longrightarrow>
    0 \<le> dollar_y (main_geometry sz) - wallet_top (main_geometry sz) \<and>
    wallet_height (main_geometry sz) * 614 < 1024 * (dollar_y (main_geometry sz) - wallet_top (main_geometry sz) + 1) \<and>
    1024 * (dollar_y (main_geometry sz) - wallet_top (main_geometry sz)) \<le> wallet_height (main_geometry sz) * 615"
  using mg_H [of sz] int_of_mul_lit_nn [of "wallet_height (main_geometry sz)" 6 10 614 615]
  by (simp only: mg_fields(14)) simp

lemma mg_dollar_radius: "0 \<le> sz \<Longrightarrow> sz < 2 ^ 31 \<Longrightarrow> 0 \<le> dollar_radius (main_geometry sz) \<and>
    sz * 61 < 1024 * (dollar_radius (main_geometry sz) + 1) \<and> 1024 * dollar_radius (main_geometry sz) \<le> sz * 62"
  using int_of_mul_lit_nn [of sz 6 100 61 62] by (simp add: mg_fields)

lemma mg_order: "0 \<le> sz \<Longrightarrow> sz < 2 ^ 31 \<Longrightarrow> radius (main_geometry sz) \<le> center (main_geometry sz) \<and>
    dollar_radius (main_geometry sz) \<le> wallet_left (main_geometry sz) \<and>
    dollar_radius (main_geometry sz) \<le> wallet_top (main_geometry sz)"
proof -
  assume s: "0 \<le> sz" "sz < 2 ^ 31"
  have "int_of_mul sz (round_frac 47 100) \<le> int_of_mul sz (round_frac 5 10)"
    and "int_of_mul sz (round_frac 6 100) \<le> int_of_mul sz (round_frac 25 100)"
    and "int_of_mul sz (round_frac 6 100) \<le> int_of_mul sz (round_frac 35 100)"
    using s by (intro int_of_mul_lit_mono; simp)+
  then show ?thesis using s by (simp add: mg_fields int_of_mul_half)
qed

lemmas main_geometry_bounds = mg_center mg_radius mg_wallet_left mg_wallet_top mg_wallet_width
  mg_wallet_height mg_flap mg_card_left mg_card_top mg_card_width mg_card_height mg_stripe
  mg_dollar_x mg_dollar_y mg_dollar_radius mg_order

lemma main_shapes_ordered:
  assumes "0 \<le> sz" and "sz < 2 ^ 31"
  shows "\<forall>d\<in>set (main_shapes (main_geometry sz) f). box_ordered (op_shape d)"
  using main_geometry_bounds [OF assms(1), OF assms(2)]
  by (simp add: main_shapes_def wallet_op_def flap_op_def card_op_def stripe_op_def coin_op_def glyph_op_def)

text \<open>C1. Every shape the main icon draws after its background lies on the canvas, for
  every canvas size Pillow accepts: the proportions are safe at any scale, not only at
  1024.\<close>

theorem main_shapes_inside:
  assumes "1 \<le> sz" and "sz < 2 ^ 31"
  shows "list_all (op_inside (nat sz)) (main_shapes (main_geometry sz) f)"
proof -
  define g where "g = main_geometry sz"
  have s: "0 \<le> sz" "sz < 2 ^ 31" using assms by simp_all
  note b = main_geometry_bounds [OF s(1), OF s(2), folded g_def, unfolded right_diff_distrib distrib_left]
  have nz: "int (nat sz) = sz" using assms by simp
  have "op_inside (nat sz) (wallet_op g)"
    unfolding wallet_op_def op_inside_rect nz using b(3-6) assms by (intro conjI; linarith)
  moreover have "op_inside (nat sz) (flap_op g)"
    unfolding flap_op_def op_inside_rect nz using b(3-7) assms by (intro conjI; linarith)
  moreover have "op_inside (nat sz) (card_op g)"
    unfolding card_op_def op_inside_rect nz using b(3-6,8-11) assms by (intro conjI; linarith)
  moreover have "op_inside (nat sz) (stripe_op g)"
    unfolding stripe_op_def op_inside_rect nz using b(3-6,8-12) assms by (intro conjI; linarith)
  moreover have "op_inside (nat sz) (coin_op g)"
    unfolding coin_op_def op_inside_ellipse nz using b(3-6,13-16) assms by (intro conjI; linarith)
  moreover have "op_inside (nat sz) (glyph_op g f)"
    unfolding glyph_op_def op_inside_text nz using b(3-6,13-14) assms by (intro conjI; linarith)
  ultimately show ?thesis by (simp add: main_shapes_def flip: g_def)
qed


lemma fg_fields:
  "fg_wallet_size (fg_geometry sz) = int_of_mul sz (round_frac 6 10)"
  "fg_wallet_left (fg_geometry sz) = (sz - fg_wallet_size (fg_geometry sz)) div 2"
  "fg_wallet_top (fg_geometry sz) = int_of_mul sz (round_frac 3 10)"
  "fg_wallet_height (fg_geometry sz) = int_of_mul (fg_wallet_size (fg_geometry sz)) (round_frac 6 10)"
  "flap_h (fg_geometry sz) = int_of_mul (fg_wallet_height (fg_geometry sz)) (round_frac 3 10)"
  "dollar_center_x (fg_geometry sz) = sz div 2"
  "dollar_center_y (fg_geometry sz) - fg_wallet_top (fg_geometry sz) =
     int_of_mul (fg_wallet_height (fg_geometry sz)) (round_frac 65 100)"
  "dollar_bg_radius (fg_geometry sz) = int_of_mul sz (round_frac 8 100)"
  by (simp_all add: fg_geometry_def Let_def)

lemma fg_size: "0 \<le> sz \<Longrightarrow> sz < 2 ^ 31 \<Longrightarrow> 0 \<le> fg_wallet_size (fg_geometry sz) \<and>
    sz * 614 < 1024 * (fg_wallet_size (fg_geometry sz) + 1) \<and> 1024 * fg_wallet_size (fg_geometry sz) \<le> sz * 615"
  using int_of_mul_lit_nn [of sz 6 10 614 615] by (simp add: fg_fields)

lemma fg_left: "0 \<le> sz \<Longrightarrow> sz < 2 ^ 31 \<Longrightarrow>
    2 * fg_wallet_left (fg_geometry sz) \<le> sz - fg_wallet_size (fg_geometry sz) \<and>
    sz - fg_wallet_size (fg_geometry sz) < 2 * fg_wallet_left (fg_geometry sz) + 2"
  using div_lin [of 2 "sz - fg_wallet_size (fg_geometry sz)"] by (simp only: fg_fields(2))

lemma fg_top: "0 \<le> sz \<Longrightarrow> sz < 2 ^ 31 \<Longrightarrow> 0 \<le> fg_wallet_top (fg_geometry sz) \<and>
    sz * 307 < 1024 * (fg_wallet_top (fg_geometry sz) + 1) \<and> 1024 * fg_wallet_top (fg_geometry sz) \<le> sz * 308"
  using int_of_mul_lit_nn [of sz 3 10 307 308] by (simp add: fg_fields)

lemma fg_S: "0 \<le> sz \<Longrightarrow> sz < 2 ^ 31 \<Longrightarrow>
    0 \<le> fg_wallet_size (fg_geometry sz) \<and> fg_wallet_size (fg_geometry sz) < 2 ^ 31"
  using fg_size [of sz] by simp

lemma fg_height: "0 \<le> sz \<Longrightarrow> sz < 2 ^ 31 \<Longrightarrow> 0 \<le> fg_wallet_height (fg_geometry sz) \<and>
    fg_wallet_size (fg_geometry sz) * 614 < 1024 * (fg_wallet_height (fg_geometry sz) + 1) \<and>
    1024 * fg_wallet_height (fg_geometry sz) \<le> fg_wallet_size (fg_geometry sz) * 615"
  using fg_S [of sz] int_of_mul_lit_nn [of "fg_wallet_size (fg_geometry sz)" 6 10 614 615]
  by (simp only: fg_fields(4)) simp

lemma fg_Hb: "0 \<le> sz \<Longrightarrow> sz < 2 ^ 31 \<Longrightarrow>
    0 \<le> fg_wallet_height (fg_geometry sz) \<and> fg_wallet_height (fg_geometry sz) < 2 ^ 31"
  using fg_height [of sz] fg_S [of sz] by simp

lemma fg_flap: "0 \<le> sz \<Longrightarrow> sz < 2 ^ 31 \<Longrightarrow> 0 \<le> flap_h (fg_geometry sz) \<and>
    fg_wallet_height (fg_geometry sz) * 307 < 1024 * (flap_h (fg_geometry sz) + 1) \<and>
    1024 * flap_h (fg_geometry sz) \<le> fg_wallet_height (fg_geometry sz) * 308"
  using fg_Hb [of sz] int_of_mul_lit_nn [of "fg_wallet_height (fg_geometry sz)" 3 10 307 308]
  by (simp only: fg_fields(5)) simp

lemma fg_cx: "0 \<le> sz \<Longrightarrow> sz < 2 ^ 31 \<Longrightarrow> 0 \<le> dollar_center_x (fg_geometry sz) \<and>
    2 * dollar_center_x (fg_geometry sz) \<le> sz \<and> sz < 2 * dollar_center_x (fg_geometry sz) + 2"
  using div_lin [of 2 sz] by (simp add: fg_fields)

lemma fg_cy: "0 \<le> sz \<Longrightarrow> sz < 2 ^ 31 \<Longrightarrow>
    0 \<le> dollar_center_y (fg_geometry sz) - fg_wallet_top (fg_geometry sz) \<and>
    fg_wallet_height (fg_geometry sz) * 665 < 1024 * (dollar_center_y (fg_geometry sz) - fg_wallet_top (fg_geometry sz) + 1) \<and>
    1024 * (dollar_center_y (fg_geometry sz) - fg_wallet_top (fg_geometry sz)) \<le> fg_wallet_height (fg_geometry sz) * 666"
  using fg_Hb [of sz] int_of_mul_lit_nn [of "fg_wallet_height (fg_geometry sz)" 65 100 665 666]
  by (simp only: fg_fields(7)) simp

lemma fg_radius: "0 \<le> sz \<Longrightarrow> sz < 2 ^ 31 \<Longrightarrow> 0 \<le> dollar_bg_radius (fg_geometry sz) \<and>
    sz * 81 < 1024 * (dollar_bg_radius (fg_geometry sz) + 1) \<and> 1024 * dollar_bg_radius (fg_geometry sz) \<le> sz * 82"
  using int_of_mul_lit_nn [of sz 8 100 81 82] by (simp add: fg_fields)

lemma fg_order: "0 \<le> sz \<Longrightarrow> sz < 2 ^ 31 \<Longrightarrow>
    dollar_bg_radius (fg_geometry sz) \<le> dollar_center_x (fg_geometry sz) \<and>
    dollar_bg_radius (fg_geometry sz) \<le> fg_wallet_top (fg_geometry sz)"
proof -
  assume s: "0 \<le> sz" "sz < 2 ^ 31"
  have "int_of_mul sz (round_frac 8 100) \<le> int_of_mul sz (round_frac 5 10)"
    and "int_of_mul sz (round_frac 8 100) \<le> int_of_mul sz (round_frac 3 10)"
    using s by (intro int_of_mul_lit_mono; simp)+
  then show ?thesis using s by (simp add: fg_fields int_of_mul_half)
qed

lemmas fg_geometry_bounds = fg_size fg_left fg_top fg_height fg_flap fg_cx fg_cy fg_radius fg_order

lemma fg_shapes_ordered:
  assumes "0 \<le> sz" and "sz < 2 ^ 31"
  shows "\<forall>d\<in>set (fg_shapes (fg_geometry sz) f). box_ordered (op_shape d)"
  using fg_geometry_bounds [OF assms(1), OF assms(2)]
  by (simp add: fg_shapes_def fg_wallet_op_def fg_flap_op_def fg_coin_op_def fg_glyph_op_def)

text \<open>C2. Every shape of the adaptive foreground lies on the canvas, for every canvas size
  Pillow accepts.\<close>

theorem fg_shapes_inside:
  assumes "1 \<le> sz" and "sz < 2 ^ 31"
  shows "list_all (op_inside (nat sz)) (fg_shapes (fg_geometry sz) f)"
proof -
  define g where "g = fg_geometry sz"
  have s: "0 \<le> sz" "sz < 2 ^ 31" using assms by simp_all
  note b = fg_geometry_bounds [OF s(1), OF s(2), folded g_def, unfolded right_diff_distrib distrib_left]
  have nz: "int (nat sz) = sz" using assms by simp
  have "op_inside (nat sz) (fg_wallet_op g)"
    unfolding fg_wallet_op_def op_inside_rect nz using b(1-4) assms by (intro conjI; linarith)
  moreover have "op_inside (nat sz) (fg_flap_op g)"
    unfolding fg_flap_op_def op_inside_rect nz using b(1-5) assms by (intro conjI; linarith)
  moreover have "op_inside (nat sz) (fg_coin_op g)"
    unfolding fg_coin_op_def op_inside_ellipse nz using b(1-4,6-9) assms by (intro conjI; linarith)
  moreover have "op_inside (nat sz) (fg_glyph_op g f)"
    unfolding fg_glyph_op_def op_inside_text nz using b(1-4,6-7) assms by (intro conjI; linarith)
  ultimately show ?thesis by (simp add: fg_shapes_def flip: g_def)
qed

theorem main_shapes_inside_witness:
  "1 \<le> (1024::int) \<and> (1024::int) < 2 ^ 31 \<and>
   list_all (op_inside (nat 1024)) (main_shapes (main_geometry 1024) DefaultFont)"
  using main_shapes_inside [of 1024 DefaultFont] by simp

theorem fg_shapes_inside_witness:
  "1 \<le> (1024::int) \<and> (1024::int) < 2 ^ 31 \<and>
   list_all (op_inside (nat 1024)) (fg_shapes (fg_geometry 1024) DefaultFont)"
  using fg_shapes_inside [of 1024 DefaultFont] by simp


end
