(* ===== verification/Gradient.thy ===== *)
theory Gradient
  imports PyFloat PilDraw
begin

text \<open>
  The background of the main icon (src/assets/icons/create_icon.py, lines 25--33): one
  filled circle per \<open>i\<close> in \<open>range(radius)\<close>, shrinking by one pixel per step, its colour
  interpolated from #2563EB (\<open>i = 0\<close>, the rim) towards #1D4ED8 (the centre) with the
  Python float expression \<open>int(a + (b - a) * (i / radius))\<close>.  The loop body also computes
  \<open>alpha\<close>, which no later line reads: every circle is filled with alpha 255.
\<close>

section \<open>The loop body\<close>

text \<open>One colour channel, \<open>int(a + (b - a) * t)\<close>: the int \<open>b - a\<close> is converted to float
  for the product, the int \<open>a\<close> for the sum.\<close>

definition lerp_channel :: "int \<Rightarrow> int \<Rightarrow> pyfloat \<Rightarrow> int" where
  "lerp_channel a b t = ftrunc (fadd (float_of_int a) (fmul (float_of_int (b - a)) t))"

text \<open>Lines 26--33, each \<open>i / radius\<close> a separate true division, as in the source.\<close>

definition gradient_step :: "int \<Rightarrow> int \<Rightarrow> int \<Rightarrow> draw_op py_result" where
  "gradient_step center radius i =
     sbind (int_truediv i radius) (\<lambda>t.
       let alpha = ftrunc (fmul (float_of_int 255) (fsub (float_of_int 1) t)) in
     sbind (int_truediv i radius) (\<lambda>t.
       let color_r = lerp_channel 37 29 t in
     sbind (int_truediv i radius) (\<lambda>t.
       let color_g = lerp_channel 99 78 t in
     sbind (int_truediv i radius) (\<lambda>t.
       let color_b = lerp_channel 235 216 t in
     Inr \<lparr>op_shape = Ellipse (center - radius + i, center - radius + i,
                              center + radius - i, center + radius - i),
          op_fill = (color_r, color_g, color_b, 255)\<rparr>))))"

text \<open>The loop of line 25 with the draw call of line 31, interleaved as the source runs
  them: the ring's colours are computed, then the ring is drawn.\<close>

fun gradient_loop :: "raster \<Rightarrow> int \<Rightarrow> int \<Rightarrow> image \<Rightarrow> int list \<Rightarrow> image py_result" where
  "gradient_loop r center radius img [] = Inr img"
| "gradient_loop r center radius img (i # is) =
     sbind (gradient_step center radius i) (\<lambda>d.
     sbind (draw r img d) (\<lambda>img'. gradient_loop r center radius img' is))"

definition gradient :: "raster \<Rightarrow> int \<Rightarrow> int \<Rightarrow> image \<Rightarrow> image py_result" where
  "gradient r center radius img = gradient_loop r center radius img (py_range radius)"

text \<open>The ring drawn at step \<open>i\<close>, given the quotient \<open>t = i / radius\<close>.\<close>

definition ring_op :: "int \<Rightarrow> int \<Rightarrow> int \<Rightarrow> pyfloat \<Rightarrow> draw_op" where
  "ring_op center radius i t =
     \<lparr>op_shape = Ellipse (center - radius + i, center - radius + i,
                         center + radius - i, center + radius - i),
      op_fill = (lerp_channel 37 29 t, lerp_channel 99 78 t, lerp_channel 235 216 t, 255)\<rparr>"

definition ring_t :: "int \<Rightarrow> int \<Rightarrow> pyfloat" where
  "ring_t radius i = round_frac (sgn radius * i) \<bar>radius\<bar>"

definition gradient_ops :: "int \<Rightarrow> int \<Rightarrow> draw_op list" where
  "gradient_ops center radius = map (\<lambda>i. ring_op center radius i (ring_t radius i)) (py_range radius)"

text \<open>Channel-wise order of two colours, alpha ignored.\<close>

definition rgb_le :: "rgba_int \<Rightarrow> rgba_int \<Rightarrow> bool" where
  "rgb_le c c' = (case c of (r, g, b, _) \<Rightarrow> case c' of (r', g', b', _) \<Rightarrow> r \<le> r' \<and> g \<le> g' \<and> b \<le> b')"

declare lerp_channel_def [py_eval] gradient_step_def [py_eval] ring_op_def [py_eval] ring_t_def [py_eval]

section \<open>The quotient and one channel\<close>

lemma int_truediv_ring_t: "radius \<noteq> 0 \<Longrightarrow> int_truediv i radius = Inr (ring_t radius i)"
  by (simp add: int_truediv_def ring_t_def)

lemma gradient_step_ring:
  "radius \<noteq> 0 \<Longrightarrow> gradient_step center radius i = Inr (ring_op center radius i (ring_t radius i))"
  by (simp add: gradient_step_def int_truediv_ring_t ring_op_def)

lemma fval_ring_t: "radius \<noteq> 0 \<Longrightarrow> fval (ring_t radius i) = dround (of_int i / of_int radius)"
  using int_truediv_eq [of radius i] by (simp add: int_truediv_ring_t)

lemma ring_t_unit:
  assumes "0 \<le> i" "i < radius"
  shows "0 \<le> fval (ring_t radius i) \<and> fval (ring_t radius i) \<le> 1"
proof -
  have "of_int 0 \<le> (of_int i / of_int radius :: rat)" "of_int i / of_int radius \<le> (of_int 1 :: rat)"
    using assms by simp_all
  then show ?thesis using dround_between [of 0 "of_int i / of_int radius" 1] assms
    by (simp add: fval_ring_t)
qed

lemma ring_t_mono:
  assumes "i \<le> j" "0 < radius"
  shows "fval (ring_t radius i) \<le> fval (ring_t radius j)"
proof -
  have "(of_int i / of_int radius :: rat) \<le> of_int j / of_int radius"
    using assms by (simp add: divide_right_mono)
  then show ?thesis using assms by (simp add: fval_ring_t dround_mono)
qed

lemma lerp_channel_eq:
  assumes "\<bar>a\<bar> < 2 ^ 53" "\<bar>b - a\<bar> < 2 ^ 53"
  shows "lerp_channel a b t = py_trunc (dround (of_int a + dround (of_int (b - a) * fval t)))"
  using assms by (simp add: lerp_channel_def ftrunc_eq fval_fadd fval_fmul fval_float_of_int_exact)

lemma lerp_channel_bounds:
  assumes "b \<le> a" "\<bar>a\<bar> < 2 ^ 52" "\<bar>b\<bar> < 2 ^ 52" "0 \<le> fval t" "fval t \<le> 1"
  shows "b \<le> lerp_channel a b t \<and> lerp_channel a b t \<le> a"
proof -
  have ba: "\<bar>b - a\<bar> < 2 ^ 53" using assms(2,3) by (auto simp: abs_less_iff)
  have "of_int (b - a) \<le> of_int (b - a) * fval t" "of_int (b - a) * fval t \<le> of_int 0"
    using assms(1,4,5) by (simp_all add: mult_left_le_one_le mult_nonpos_nonneg
      mult_le_cancel_left1)
  then have p: "of_int (b - a) \<le> dround (of_int (b - a) * fval t) \<and> dround (of_int (b - a) * fval t) \<le> of_int 0"
    using dround_between [of "b - a" _ 0] ba by simp
  then have "of_int b \<le> of_int a + dround (of_int (b - a) * fval t)"
    "of_int a + dround (of_int (b - a) * fval t) \<le> of_int a"
    by simp_all
  then have "of_int b \<le> dround (of_int a + dround (of_int (b - a) * fval t)) \<and>
     dround (of_int a + dround (of_int (b - a) * fval t)) \<le> of_int a"
    using dround_between [of b _ a] assms(2,3) by simp
  then show ?thesis
    using py_trunc_mono [of "of_int b"] py_trunc_mono [of _ "of_int a"] ba assms(2)
    by (simp add: lerp_channel_eq)
qed

lemma lerp_channel_antimono:
  assumes "b \<le> a" "\<bar>a\<bar> < 2 ^ 52" "\<bar>b\<bar> < 2 ^ 52" "fval t \<le> fval t'"
  shows "lerp_channel a b t' \<le> lerp_channel a b t"
proof -
  have "of_int (b - a) * fval t' \<le> of_int (b - a) * fval t"
    using assms(1,4) by (simp add: mult_left_mono_neg)
  then have "dround (of_int a + dround (of_int (b - a) * fval t')) \<le>
      dround (of_int a + dround (of_int (b - a) * fval t))"
    by (simp add: dround_mono)
  then show ?thesis using assms(2,3) py_trunc_mono
    by (simp add: lerp_channel_eq)
qed

lemma ring_op_bounds:
  assumes "0 \<le> fval t" "fval t \<le> 1"
  shows "case op_fill (ring_op center radius i t) of (r, g, b, a) \<Rightarrow>
     29 \<le> r \<and> r \<le> 37 \<and> 78 \<le> g \<and> g \<le> 99 \<and> 216 \<le> b \<and> b \<le> 235 \<and> a = 255"
  using lerp_channel_bounds [of 29 37 t] lerp_channel_bounds [of 78 99 t]
    lerp_channel_bounds [of 216 235 t] assms
  by (simp add: ring_op_def)

lemma lerp_channel_zero: "\<bar>a\<bar> < 2 ^ 52 \<Longrightarrow> \<bar>b\<bar> < 2 ^ 52 \<Longrightarrow> lerp_channel a b (0, 0) = a"
proof -
  assume "\<bar>a\<bar> < 2 ^ 52" "\<bar>b\<bar> < 2 ^ 52"
  moreover have "\<bar>b - a\<bar> < 2 ^ 53" using calculation by (auto simp: abs_less_iff)
  ultimately show ?thesis by (simp add: lerp_channel_eq fval_def dround_of_int)
qed

lemma ring_t_zero: "ring_t radius 0 = (0, 0)"
  by (simp add: ring_t_def round_frac_def)

lemma ring_t_last:
  assumes "64 \<le> radius"
  shows "63 / 64 \<le> fval (ring_t radius (radius - 1))"
proof -
  have "(of_int 63 / 2 ^ 6 :: rat) \<le> of_int (radius - 1) / of_int radius"
    using assms by (simp add: field_simps)
  then have "dround (of_int 63 / 2 ^ 6) \<le> dround (of_int (radius - 1) / of_int radius)"
    by (rule dround_mono)
  then show ?thesis using assms dround_exact_frac [of 63 6] by (simp add: fval_ring_t)
qed

lemma lerp_inner:
  "lerp_channel 37 29 (round_frac 63 64) = 29"
  "lerp_channel 99 78 (round_frac 63 64) = 78"
  "lerp_channel 235 216 (round_frac 63 64) = 216"
  by code_simp+

lemma fval_63_64: "fval (round_frac 63 64) = 63 / 64"
  using dround_exact_frac [of 63 6] by (simp add: fval_round_frac)

section \<open>Properties of the background\<close>

text \<open>C3. Every ring of the background is drawn, and its colour stays between the two
  colours the comment names, channel by channel: red in 29..37, green in 78..99, blue in
  216..235, alpha 255.\<close>

theorem gradient_step_bounds:
  assumes "0 \<le> i" and "i < radius"
  shows "\<exists>d. gradient_step center radius i = Inr d \<and>
    op_shape d = Ellipse (center - radius + i, center - radius + i, center + radius - i, center + radius - i) \<and>
    (case op_fill d of (r, g, b, a) \<Rightarrow>
       29 \<le> r \<and> r \<le> 37 \<and> 78 \<le> g \<and> g \<le> 99 \<and> 216 \<le> b \<and> b \<le> 235 \<and> a = 255)"
proof -
  have "radius \<noteq> 0" using assms by simp
  then show ?thesis
    using ring_op_bounds [OF conjunct1 [OF ring_t_unit [OF assms]] conjunct2 [OF ring_t_unit [OF assms]]]
    by (simp add: gradient_step_ring ring_op_def)
qed

text \<open>C4. The rings darken towards the centre: a ring drawn later (larger \<open>i\<close>) has no
  channel brighter than an earlier one.\<close>

theorem gradient_step_darkens:
  assumes "0 \<le> i" and "i \<le> j" and "j < radius"
  shows "\<exists>di dj. gradient_step center radius i = Inr di \<and> gradient_step center radius j = Inr dj \<and>
    rgb_le (op_fill dj) (op_fill di)"
proof -
  have r: "0 < radius" using assms by simp
  have "fval (ring_t radius i) \<le> fval (ring_t radius j)" using assms(2) r by (rule ring_t_mono)
  then show ?thesis
    using r lerp_channel_antimono [of 29 37] lerp_channel_antimono [of 78 99]
      lerp_channel_antimono [of 216 235]
    by (simp add: gradient_step_ring ring_op_def rgb_le_def)
qed

text \<open>C5. The gradient runs from the rim colour #2563EB = (37, 99, 235) of the first ring
  to exactly the centre colour #1D4ED8 = (29, 78, 216) of the last, as the comment of
  line 27 says, for every radius of at least 64 pixels (the script's is 481).\<close>

theorem gradient_endpoints:
  assumes "64 \<le> radius"
  shows "gradient_step center radius 0 =
      Inr \<lparr>op_shape = Ellipse (center - radius, center - radius, center + radius, center + radius),
           op_fill = (37, 99, 235, 255)\<rparr> \<and>
    (\<exists>d. gradient_step center radius (radius - 1) = Inr d \<and> op_fill d = (29, 78, 216, 255))"
proof -
  have r: "radius \<noteq> 0" "0 \<le> radius - 1" "radius - 1 < radius" using assms by simp_all
  have t: "fval (round_frac 63 64) \<le> fval (ring_t radius (radius - 1))"
    using ring_t_last [OF assms] by (simp add: fval_63_64)
  have u: "fval (ring_t radius (radius - 1)) \<le> 1" using ring_t_unit [OF r(2,3)] by simp
  have "0 \<le> fval (ring_t radius (radius - 1))" using ring_t_unit [OF r(2,3)] by simp
  then have "op_fill (ring_op center radius (radius - 1) (ring_t radius (radius - 1))) = (29, 78, 216, 255)"
    using u lerp_inner lerp_channel_antimono [OF _ _ _ t, of 29 37] lerp_channel_bounds [of 29 37]
      lerp_channel_antimono [OF _ _ _ t, of 78 99] lerp_channel_bounds [of 78 99]
      lerp_channel_antimono [OF _ _ _ t, of 216 235] lerp_channel_bounds [of 216 235]
    by (simp add: ring_op_def) (meson order_antisym)
  then show ?thesis
    using r by (simp add: gradient_step_ring ring_op_def ring_t_zero lerp_channel_zero)
qed

section \<open>The loop\<close>

lemma gradient_loop_render:
  "\<forall>i\<in>set is. 0 \<le> i \<and> i < radius \<Longrightarrow>
   gradient_loop r center radius img is = render r img (map (\<lambda>i. ring_op center radius i (ring_t radius i)) is)"
proof (induction "is" arbitrary: img)
  case (Cons i "is")
  then have "radius \<noteq> 0" by auto
  with Cons show ?case by (simp add: gradient_step_ring sbind_def split: sum.split)
qed simp

lemma gradient_render: "gradient r center radius img = render r img (gradient_ops center radius)"
  unfolding gradient_def gradient_ops_def by (rule gradient_loop_render) simp

lemma gradient_ops_ordered: "\<forall>d\<in>set (gradient_ops center radius). box_ordered (op_shape d)"
  by (auto simp: gradient_ops_def ring_op_def)

lemma gradient_painted:
  "\<exists>img'. gradient r center radius img = Inr img' \<and>
     img_mode img' = img_mode img \<and> img_width img' = img_width img \<and> img_height img' = img_height img \<and>
     img_px img' = painted r img (gradient_ops center radius)"
proof -
  obtain img' where i: "render r img (gradient_ops center radius) = Inr img'"
    using render_Inr_iff gradient_ops_ordered by blast
  show ?thesis
    using i render_frame [OF i] render_painted [OF i] by (simp add: gradient_render)
qed

lemma gradient_ops_opaque: "d \<in> set (gradient_ops center radius) \<Longrightarrow> snd (snd (snd (op_fill d))) = 255"
  by (auto simp: gradient_ops_def ring_op_def)

lemma gradient_ops_first:
  "0 < radius \<Longrightarrow> ring_op center radius 0 (ring_t radius 0) \<in> set (gradient_ops center radius)"
  by (auto simp: gradient_ops_def)

text \<open>C6. The background loop never raises (no ZeroDivisionError, no ValueError from an
  inverted box) for any radius, keeps the canvas's mode and size, and leaves every pixel
  with the ink of the last ring that covers it.\<close>

theorem gradient_total:
  "\<exists>img'. gradient r center radius img = Inr img' \<and>
     img_mode img' = img_mode img \<and> img_width img' = img_width img \<and> img_height img' = img_height img \<and>
     img_px img' = painted r img (gradient_ops center radius)"
  by (rule gradient_painted)

text \<open>C19. The loop of line 25 ends after exactly \<open>max radius 0\<close> iterations: it draws one
  ring per \<open>i = 0, ..., radius - 1\<close>, in that order, the \<open>i\<close>-th shrunk by \<open>i\<close> pixels
  on every side, and nothing else.\<close>

theorem gradient_loop_runs:
  "gradient r center radius img = render r img (gradient_ops center radius) \<and>
   length (gradient_ops center radius) = nat radius \<and>
   map op_shape (gradient_ops center radius) =
     map (\<lambda>i. Ellipse (center - radius + i, center - radius + i, center + radius - i, center + radius - i))
       (py_range radius)"
  by (simp add: gradient_render gradient_ops_def py_range_def ring_op_def)

theorem gradient_step_bounds_witness:
  "0 \<le> (5::int) \<and> (5::int) < 481 \<and>
   (\<exists>d. gradient_step 512 481 5 = Inr d \<and> op_shape d = Ellipse (36, 36, 988, 988) \<and>
     (case op_fill d of (r, g, b, a) \<Rightarrow>
        29 \<le> r \<and> r \<le> 37 \<and> 78 \<le> g \<and> g \<le> 99 \<and> 216 \<le> b \<and> b \<le> 235 \<and> a = 255))"
  using gradient_step_bounds [of 5 481 512] by simp

theorem gradient_step_darkens_witness:
  "0 \<le> (0::int) \<and> (0::int) \<le> 480 \<and> (480::int) < 481 \<and>
   (\<exists>di dj. gradient_step 512 481 0 = Inr di \<and> gradient_step 512 481 480 = Inr dj \<and>
      rgb_le (op_fill dj) (op_fill di))"
  using gradient_step_darkens [of 0 480 481 512] by simp

theorem gradient_endpoints_witness:
  "64 \<le> (481::int) \<and>
   gradient_step 512 481 0 = Inr \<lparr>op_shape = Ellipse (31, 31, 993, 993), op_fill = (37, 99, 235, 255)\<rparr> \<and>
   (\<exists>d. gradient_step 512 481 480 = Inr d \<and> op_fill d = (29, 78, 216, 255))"
  using gradient_endpoints [of 481 512] by simp

end
