(* ===== verification/Fonts.thy ===== *)
theory Fonts
  imports PyFloat PilDraw
begin

text \<open>
  The font lookups of \<^verbatim>\<open>create_app_icon\<close> (lines 79--86 for the main icon, 125--132
  for the foreground): \<^verbatim>\<open>ImageFont.truetype("arial.ttf", n)\<close>, then the macOS path, then
  \<^verbatim>\<open>ImageFont.load_default()\<close>, each attempt inside a bare \<open>try/except\<close>.  Which font
  files \<^verbatim>\<open>truetype\<close> can open is the environment, a set of names; \<^verbatim>\<open>truetype\<close> itself is
  Pillow's: a size below 1 is a ValueError, a name it cannot open an OSError.
\<close>

type_synonym font_env = "string set"

definition truetype :: "font_env \<Rightarrow> string \<Rightarrow> int \<Rightarrow> font py_result" where
  "truetype env path sz =
     (if sz \<le> 0 then Inl ValueError
      else if path \<in> env then Inr (TrueType path sz)
      else Inl OSError)"

definition load_default :: font where
  "load_default = DefaultFont"

text \<open>Lines 79--86 (and 125--132 with \<open>1.6\<close> for \<open>1.5\<close>): the size is computed inside the
  first \<open>try\<close> and again, by the same expression, for the second attempt.\<close>

definition resolve_font :: "font_env \<Rightarrow> int \<Rightarrow> pyfloat \<Rightarrow> font py_result" where
  "resolve_font env r c =
     try_except
       (let font_size = int_of_mul r c in truetype env ''arial.ttf'' font_size)
       (\<lambda>_. try_except (truetype env ''/System/Library/Fonts/Arial.ttf'' (int_of_mul r c))
              (\<lambda>_. Inr load_default))"

definition main_font :: "font_env \<Rightarrow> int \<Rightarrow> font py_result" where
  "main_font env dollar_radius = resolve_font env dollar_radius (round_frac 15 10)"

definition fg_font :: "font_env \<Rightarrow> int \<Rightarrow> font py_result" where
  "fg_font env dollar_bg_radius = resolve_font env dollar_bg_radius (round_frac 16 10)"

declare truetype_def [py_eval] load_default_def [py_eval] resolve_font_def [py_eval]
  main_font_def [py_eval] fg_font_def [py_eval]

text \<open>The contract of the chain: the first candidate that loads, else the default font.\<close>

definition font_choice :: "font_env \<Rightarrow> int \<Rightarrow> font" where
  "font_choice env sz =
     (if 0 < sz \<and> ''arial.ttf'' \<in> env then TrueType ''arial.ttf'' sz
      else if 0 < sz \<and> ''/System/Library/Fonts/Arial.ttf'' \<in> env
        then TrueType ''/System/Library/Fonts/Arial.ttf'' sz
      else DefaultFont)"

lemma font_sizes_1024:
  "int_of_mul 61 (round_frac 15 10) = 91"
  "int_of_mul 81 (round_frac 16 10) = 129"
  by code_simp+

lemma resolve_font_choice: "resolve_font env r c = Inr (font_choice env (int_of_mul r c))"
  by (simp add: resolve_font_def truetype_def font_choice_def load_default_def)

lemma font_choice_extent: "font_extent (font_choice env sz) \<le> max sz 16"
  by (simp add: font_choice_def)

text \<open>C7. The fallback chain never raises: whatever fonts the machine has, it returns the
  first candidate that loads at the computed size, and the built-in default otherwise.\<close>

theorem resolve_font_spec:
  "resolve_font env r c = Inr (font_choice env (int_of_mul r c))"
  by (simp add: resolve_font_def truetype_def font_choice_def load_default_def)

end
