(* ===== verification/Icons.thy ===== *)
theory Icons
  imports Geometry Gradient Fonts
begin

text \<open>
  The two canvases of \<^verbatim>\<open>create_app_icon\<close> (src/assets/icons/create_icon.py): the main
  icon, lines 17--89 (a transparent canvas, the background rings, wallet, flap, card,
  stripe, coin, font lookup, glyph), and the adaptive foreground, lines 96--135.  Each is
  the sequence of Pillow calls in source order, with the first exception ending it.  The
  script fixes the size at 1024; the procedures take it as a parameter.
\<close>

definition main_icon :: "raster \<Rightarrow> font_env \<Rightarrow> int \<Rightarrow> image py_result" where
  "main_icon r env sz =
     sbind (pil_new ''RGBA'' sz sz (0, 0, 0, 0)) (\<lambda>img.
     let g = main_geometry sz in
     sbind (gradient r (center g) (radius g) img) (\<lambda>img.
     sbind (draw r img (wallet_op g)) (\<lambda>img.
     sbind (draw r img (flap_op g)) (\<lambda>img.
     sbind (draw r img (card_op g)) (\<lambda>img.
     sbind (draw r img (stripe_op g)) (\<lambda>img.
     sbind (draw r img (coin_op g)) (\<lambda>img.
     sbind (main_font env (dollar_radius g)) (\<lambda>font.
     draw r img (glyph_op g font)))))))))"

definition fg_icon :: "raster \<Rightarrow> font_env \<Rightarrow> int \<Rightarrow> image py_result" where
  "fg_icon r env sz =
     sbind (pil_new ''RGBA'' sz sz (0, 0, 0, 0)) (\<lambda>img.
     let g = fg_geometry sz in
     sbind (draw r img (fg_wallet_op g)) (\<lambda>img.
     sbind (draw r img (fg_flap_op g)) (\<lambda>img.
     sbind (draw r img (fg_coin_op g)) (\<lambda>img.
     sbind (fg_font env (dollar_bg_radius g)) (\<lambda>font.
     draw r img (fg_glyph_op g font))))))"

section \<open>Each canvas is one render\<close>

definition main_font_size :: "int \<Rightarrow> int" where
  "main_font_size sz = int_of_mul (dollar_radius (main_geometry sz)) (round_frac 15 10)"

definition fg_font_size :: "int \<Rightarrow> int" where
  "fg_font_size sz = int_of_mul (dollar_bg_radius (fg_geometry sz)) (round_frac 16 10)"

lemma main_icon_render:
  "0 \<le> sz \<Longrightarrow> sz \<le> 536870910 \<Longrightarrow> main_icon r env sz =
     render r (image_new ''RGBA'' (nat sz) (nat sz) (0, 0, 0, 0))
       (gradient_ops (center (main_geometry sz)) (radius (main_geometry sz)) @
        main_shapes (main_geometry sz) (font_choice env (main_font_size sz)))"
  by (simp add: main_icon_def pil_new_def gradient_render render_append main_shapes_def
      main_font_def resolve_font_choice main_font_size_def sbind_assoc Let_def)

lemma fg_icon_render:
  "0 \<le> sz \<Longrightarrow> sz \<le> 536870910 \<Longrightarrow> fg_icon r env sz =
     render r (image_new ''RGBA'' (nat sz) (nat sz) (0, 0, 0, 0))
       (fg_shapes (fg_geometry sz) (font_choice env (fg_font_size sz)))"
  by (simp add: fg_icon_def pil_new_def fg_shapes_def fg_font_def resolve_font_choice
      fg_font_size_def sbind_assoc Let_def)



lemma main_icon_ok:
  assumes "0 \<le> sz" and "sz \<le> 536870910"
  shows "\<exists>img. main_icon r env sz = Inr img \<and> img_mode img = ''RGBA'' \<and>
    img_width img = nat sz \<and> img_height img = nat sz \<and>
    img_px img = painted r (image_new ''RGBA'' (nat sz) (nat sz) (0, 0, 0, 0))
      (gradient_ops (center (main_geometry sz)) (radius (main_geometry sz)) @
       main_shapes (main_geometry sz) (font_choice env (main_font_size sz)))"
proof -
  let ?ops = "gradient_ops (center (main_geometry sz)) (radius (main_geometry sz)) @
       main_shapes (main_geometry sz) (font_choice env (main_font_size sz))"
  have s: "sz < 2 ^ 31" using assms(2) by simp
  have "\<forall>d\<in>set ?ops. box_ordered (op_shape d)"
    using gradient_ops_ordered main_shapes_ordered [OF assms(1) s] by auto
  then obtain img where i: "render r (image_new ''RGBA'' (nat sz) (nat sz) (0, 0, 0, 0)) ?ops = Inr img"
    using render_Inr_iff by blast
  show ?thesis
    using i render_frame [OF i] render_painted [OF i] main_icon_render [OF assms] by simp
qed

lemma fg_icon_ok:
  assumes "0 \<le> sz" and "sz \<le> 536870910"
  shows "\<exists>img. fg_icon r env sz = Inr img \<and> img_mode img = ''RGBA'' \<and>
    img_width img = nat sz \<and> img_height img = nat sz \<and>
    img_px img = painted r (image_new ''RGBA'' (nat sz) (nat sz) (0, 0, 0, 0))
      (fg_shapes (fg_geometry sz) (font_choice env (fg_font_size sz)))"
proof -
  have s: "sz < 2 ^ 31" using assms(2) by simp
  obtain img where i: "render r (image_new ''RGBA'' (nat sz) (nat sz) (0, 0, 0, 0))
      (fg_shapes (fg_geometry sz) (font_choice env (fg_font_size sz))) = Inr img"
    using render_Inr_iff fg_shapes_ordered [OF assms(1) s] by blast
  show ?thesis
    using i render_frame [OF i] render_painted [OF i] fg_icon_render [OF assms] by simp
qed

lemma font_sizes_at_1024: "main_font_size 1024 = 91" "fg_font_size 1024 = 129"
  by (simp_all add: main_font_size_def fg_font_size_def check_1024 check_fg_1024 font_sizes_1024)

lemma main_topmost_1024:
  assumes ok: "raster_ok r"
  shows "topmost r (main_shapes (main_geometry 1024) (font_choice env 91)) (512, 512) =
    Some (stripe_op (main_geometry 1024))"
proof -
  have e: "font_extent (font_choice env 91) \<le> 91" using font_choice_extent [of env 91] by simp
  have "\<not> r (Text (665, 542) ''$'' (font_choice env 91)) (512, 512)"
    using raster_ok_sound [OF ok, of "Text (665, 542) ''$'' (font_choice env 91)"] e by force
  moreover have "\<not> r (Ellipse (604, 481, 726, 603)) (512, 512)"
    using raster_ok_sound [OF ok, of "Ellipse (604, 481, 726, 603)"] by (force simp: in_bbox_def)
  moreover have "r (RoundedRect (332, 480, 613, 514) 12) (512, 512)"
    by (rule raster_ok_rect [OF ok]) (simp_all add: in_bbox_def in_cross_def)
  ultimately show ?thesis
    by (simp add: topmost_def main_shapes_def check_1024 glyph_op_def coin_op_def stripe_op_def)
qed

section \<open>What the canvases hold\<close>



lemma main_icon_centre_px:
  assumes ok: "raster_ok r" and m: "main_icon r env 1024 = Inr img"
  shows "img_px img (512, 512) = ink (6, 95, 70, 255)"
proof -
  have p: "img_px img = painted r (image_new ''RGBA'' 1024 1024 (0, 0, 0, 0))
      (gradient_ops (center (main_geometry 1024)) (radius (main_geometry 1024)) @
       main_shapes (main_geometry 1024) (font_choice env 91))"
    using main_icon_ok [of 1024 r env] m by (auto simp: font_sizes_at_1024)
  show ?thesis
    using main_topmost_1024 [OF ok, of env]
    by (simp add: p painted_def topmost_append stripe_op_def check_1024)
qed

lemma fg_icon_centre_px:
  assumes ok: "raster_ok r" and m: "fg_icon r env 1024 = Inr img"
  shows "img_px img (512, 512) = ink (245, 158, 11, 255) \<or> img_px img (512, 512) = ink (255, 255, 255, 255)"
proof -
  have p: "img_px img = painted r (image_new ''RGBA'' 1024 1024 (0, 0, 0, 0))
      (fg_shapes (fg_geometry 1024) (font_choice env 129))"
    using fg_icon_ok [of 1024 r env] m by (auto simp: font_sizes_at_1024)
  have c: "r (Ellipse (431, 465, 593, 627)) (512, 512)"
    by (rule raster_ok_ellipse [OF ok]) (simp add: in_diamond_def in_bbox_def)
  then show ?thesis
    by (simp add: p painted_def topmost_def fg_shapes_def check_fg_1024 fg_glyph_op_def fg_coin_op_def)
qed

text \<open>C10. In the 1024-pixel main icon the centre pixel (512, 512) holds the card stripe's
  colour (6, 95, 70) fully opaque, whatever fonts are installed and for every rasteriser
  meeting the contract: the centre of the icon is not empty.\<close>

theorem main_icon_centre:
  assumes "raster_ok r"
  shows "\<exists>img. main_icon r env 1024 = Inr img \<and> img_px img (512, 512) = ink (6, 95, 70, 255)"
  using main_icon_ok [of 1024 r env] main_icon_centre_px [OF assms] by fastforce

lemma gradient_pixel_opaque:
  assumes ok: "raster_ok r" and rad: "0 < rad"
    and cov: "in_diamond (c - rad, c - rad, c + rad, c + rad) p"
    and cv: "in_canvas img p"
  shows "snd (snd (snd (painted r img (gradient_ops c rad) p))) = 255"
proof -
  have "r (op_shape (ring_op c rad 0 (ring_t rad 0))) p"
    using raster_ok_ellipse [OF ok cov] by (simp add: ring_op_def)
  then have "topmost r (gradient_ops c rad) p \<noteq> None"
    using gradient_ops_first [OF rad] topmost_None_iff by blast
  then obtain d where d: "topmost r (gradient_ops c rad) p = Some d" by blast
  then have "snd (snd (snd (op_fill d))) = 255"
    using topmost_Some gradient_ops_opaque by blast
  then show ?thesis using d cv by (simp add: painted_def ink_alpha)
qed

lemma main_topmost_wallet_1024:
  assumes ok: "raster_ok r"
  shows "topmost r (main_shapes (main_geometry 1024) (font_choice env 91)) (300, 650) =
    Some (wallet_op (main_geometry 1024))"
proof -
  have e: "font_extent (font_choice env 91) \<le> 91" using font_choice_extent [of env 91] by simp
  have "\<not> r (Text (665, 542) ''$'' (font_choice env 91)) (300, 650)"
    using raster_ok_sound [OF ok, of "Text (665, 542) ''$'' (font_choice env 91)"] e by force
  moreover have "\<not> r (Ellipse (604, 481, 726, 603)) (300, 650)"
    using raster_ok_sound [OF ok, of "Ellipse (604, 481, 726, 603)"] by (force simp: in_bbox_def)
  moreover have "\<not> r (RoundedRect (332, 480, 613, 514) 12) (300, 650)"
    using raster_ok_sound [OF ok, of "RoundedRect (332, 480, 613, 514) 12"] by (force simp: in_bbox_def)
  moreover have "\<not> r (RoundedRect (332, 480, 613, 618) 12) (300, 650)"
    using raster_ok_sound [OF ok, of "RoundedRect (332, 480, 613, 618) 12"] by (force simp: in_bbox_def)
  moreover have "\<not> r (RoundedRect (256, 358, 768, 434) 20) (300, 650)"
    using raster_ok_sound [OF ok, of "RoundedRect (256, 358, 768, 434) 20"] by (force simp: in_bbox_def)
  moreover have "r (RoundedRect (256, 358, 768, 665) 20) (300, 650)"
    by (rule raster_ok_rect [OF ok]) (simp_all add: in_bbox_def in_cross_def)
  ultimately show ?thesis
    by (simp add: topmost_def main_shapes_def check_1024 glyph_op_def coin_op_def stripe_op_def
        card_op_def flap_op_def wallet_op_def)
qed

text \<open>C11. Drawing does not composite.  At pixel (300, 650) of the 1024-pixel main icon
  the background rings leave an opaque blue (alpha 255); the wallet body, drawn with
  alpha 240, replaces it, so the final pixel is the wallet colour at alpha 240 and the
  blue beneath is gone: the icon is translucent where the wallet is.\<close>

theorem main_icon_wallet_overwrites:
  assumes "raster_ok r"
  shows "(\<exists>img1. gradient r 512 481 (image_new ''RGBA'' 1024 1024 (0, 0, 0, 0)) = Inr img1 \<and>
            snd (snd (snd (img_px img1 (300, 650)))) = 255) \<and>
         (\<exists>img. main_icon r env 1024 = Inr img \<and> img_px img (300, 650) = ink (30, 41, 59, 240))"
proof
  obtain img1 where g: "gradient r 512 481 (image_new ''RGBA'' 1024 1024 (0, 0, 0, 0)) = Inr img1"
    and p1: "img_px img1 = painted r (image_new ''RGBA'' 1024 1024 (0, 0, 0, 0)) (gradient_ops 512 481)"
    using gradient_painted [of r 512 481 "image_new ''RGBA'' 1024 1024 (0, 0, 0, 0)"] by auto
  have "snd (snd (snd (img_px img1 (300, 650)))) = 255"
    unfolding p1 by (rule gradient_pixel_opaque [OF assms]) (simp_all add: in_diamond_def in_bbox_def)
  with g show "\<exists>img1. gradient r 512 481 (image_new ''RGBA'' 1024 1024 (0, 0, 0, 0)) = Inr img1 \<and>
            snd (snd (snd (img_px img1 (300, 650)))) = 255" by blast
next
  obtain img where m: "main_icon r env 1024 = Inr img" and
    p: "img_px img = painted r (image_new ''RGBA'' 1024 1024 (0, 0, 0, 0))
      (gradient_ops (center (main_geometry 1024)) (radius (main_geometry 1024)) @
       main_shapes (main_geometry 1024) (font_choice env 91))"
    using main_icon_ok [of 1024 r env] by (auto simp: font_sizes_at_1024)
  have "img_px img (300, 650) = ink (30, 41, 59, 240)"
    using main_topmost_wallet_1024 [OF assms, of env]
    by (simp add: p painted_def topmost_append wallet_op_def check_1024)
  with m show "\<exists>img. main_icon r env 1024 = Inr img \<and> img_px img (300, 650) = ink (30, 41, 59, 240)"
    by blast
qed

text \<open>C12. The centre pixel of the 1024-pixel foreground icon is opaque: it holds the
  coin's amber or the glyph's white, depending on the font's outline.\<close>

theorem fg_icon_centre:
  assumes ok: "raster_ok r"
  shows "\<exists>img. fg_icon r env 1024 = Inr img \<and>
    (img_px img (512, 512) = ink (245, 158, 11, 255) \<or> img_px img (512, 512) = ink (255, 255, 255, 255))"
  using fg_icon_ok [of 1024 r env] fg_icon_centre_px [OF ok] by fastforce

theorem main_icon_centre_witness:
  "raster_ok ideal_raster \<and>
   (\<exists>img. main_icon ideal_raster {} 1024 = Inr img \<and> img_px img (512, 512) = ink (6, 95, 70, 255))"
  using main_icon_centre [of ideal_raster "{}"] ideal_raster_ok by simp

theorem main_icon_wallet_overwrites_witness:
  "raster_ok ideal_raster \<and>
   (\<exists>img1. gradient ideal_raster 512 481 (image_new ''RGBA'' 1024 1024 (0, 0, 0, 0)) = Inr img1 \<and>
      snd (snd (snd (img_px img1 (300, 650)))) = 255) \<and>
   (\<exists>img. main_icon ideal_raster {''arial.ttf''} 1024 = Inr img \<and>
      img_px img (300, 650) = ink (30, 41, 59, 240))"
  using main_icon_wallet_overwrites [of ideal_raster "{''arial.ttf''}"] ideal_raster_ok by simp

theorem fg_icon_centre_witness:
  "raster_ok ideal_raster \<and>
   (\<exists>img. fg_icon ideal_raster {} 1024 = Inr img \<and>
     (img_px img (512, 512) = ink (245, 158, 11, 255) \<or> img_px img (512, 512) = ink (255, 255, 255, 255)))"
  using fg_icon_centre [of ideal_raster "{}"] ideal_raster_ok by simp

text \<open>C15. On a canvas of at most 16 pixels the dollar radius \<open>int(size * 0.06)\<close> is 0, the
  font size \<open>int(0 * 1.5)\<close> is 0, both \<^verbatim>\<open>truetype\<close> calls raise, and the glyph is drawn
  with the built-in default font even where Arial is installed.\<close>

theorem small_icon_default_font:
  assumes "0 \<le> sz" and "sz \<le> 16"
  shows "main_font env (dollar_radius (main_geometry sz)) = Inr DefaultFont"
proof -
  have "0 \<le> dollar_radius (main_geometry sz) \<and> 1024 * dollar_radius (main_geometry sz) \<le> sz * 62"
    using mg_dollar_radius [of sz] assms by simp
  then have "dollar_radius (main_geometry sz) = 0" using assms by linarith
  then show ?thesis
    by (simp add: main_font_def resolve_font_choice font_choice_def int_of_mul_eq)
qed

theorem small_icon_default_font_witness:
  "0 \<le> (16::int) \<and> (16::int) \<le> 16 \<and>
   main_font {''arial.ttf'', ''/System/Library/Fonts/Arial.ttf''} (dollar_radius (main_geometry 16)) = Inr DefaultFont"
  using small_icon_default_font [of 16 "{''arial.ttf'', ''/System/Library/Fonts/Arial.ttf''}"] by simp

lemma main_topmost_flap_1024:
  assumes ok: "raster_ok r"
  shows "topmost r (main_shapes (main_geometry 1024) (font_choice env 91)) (400, 400) =
    Some (flap_op (main_geometry 1024))"
proof -
  have e: "font_extent (font_choice env 91) \<le> 91" using font_choice_extent [of env 91] by simp
  have "\<not> r (Text (665, 542) ''$'' (font_choice env 91)) (400, 400)"
    using raster_ok_sound [OF ok, of "Text (665, 542) ''$'' (font_choice env 91)"] e by force
  moreover have "\<not> r (Ellipse (604, 481, 726, 603)) (400, 400)"
    using raster_ok_sound [OF ok, of "Ellipse (604, 481, 726, 603)"] by (force simp: in_bbox_def)
  moreover have "\<not> r (RoundedRect (332, 480, 613, 514) 12) (400, 400)"
    using raster_ok_sound [OF ok, of "RoundedRect (332, 480, 613, 514) 12"] by (force simp: in_bbox_def)
  moreover have "\<not> r (RoundedRect (332, 480, 613, 618) 12) (400, 400)"
    using raster_ok_sound [OF ok, of "RoundedRect (332, 480, 613, 618) 12"] by (force simp: in_bbox_def)
  moreover have "r (RoundedRect (256, 358, 768, 434) 20) (400, 400)"
    by (rule raster_ok_rect [OF ok]) (simp_all add: in_bbox_def in_cross_def)
  ultimately show ?thesis
    by (simp add: topmost_def main_shapes_def check_1024 glyph_op_def coin_op_def stripe_op_def
        card_op_def flap_op_def)
qed

text \<open>C20. Draw order decides overlaps: at pixel (400, 400) of the 1024-pixel main icon,
  covered by both the wallet body and the flap, the flap drawn after the wallet wins
  and the pixel holds the flap's slate colour (71, 85, 105), opaque.\<close>

theorem main_icon_flap_over_wallet:
  assumes "raster_ok r"
  shows "\<exists>img. main_icon r env 1024 = Inr img \<and> img_px img (400, 400) = ink (71, 85, 105, 255)"
proof -
  obtain img where m: "main_icon r env 1024 = Inr img" and
    p: "img_px img = painted r (image_new ''RGBA'' 1024 1024 (0, 0, 0, 0))
      (gradient_ops (center (main_geometry 1024)) (radius (main_geometry 1024)) @
       main_shapes (main_geometry 1024) (font_choice env 91))"
    using main_icon_ok [of 1024 r env] by (auto simp: font_sizes_at_1024)
  have "img_px img (400, 400) = ink (71, 85, 105, 255)"
    using main_topmost_flap_1024 [OF assms, of env]
    by (simp add: p painted_def topmost_append flap_op_def check_1024)
  with m show ?thesis by blast
qed

theorem main_icon_flap_over_wallet_witness:
  "raster_ok ideal_raster \<and>
   (\<exists>img. main_icon ideal_raster {} 1024 = Inr img \<and> img_px img (400, 400) = ink (71, 85, 105, 255))"
  using main_icon_flap_over_wallet [of ideal_raster "{}"] ideal_raster_ok by simp

end
