(* ===== verification/Script.thy ===== *)
theory Script
  imports Icons
begin

text \<open>
  The script as a program run (src/assets/icons/create_icon.py): the guarded import of
  lines 7--12, \<^verbatim>\<open>create_app_icon\<close> (lines 14--142) with its two \<^verbatim>\<open>save\<close> calls and
  four \<^verbatim>\<open>print\<close>s, and the entry point of lines 144--145.  The world the script sees
  and changes is a record: whether Pillow imports, the font files \<^verbatim>\<open>truetype\<close> can open,
  the directories under the working directory, the files written (a PNG as the image it
  encodes), and standard output.  An exception that escapes \<^verbatim>\<open>create_app_icon\<close> ends the
  interpreter with status 1 and keeps every effect that happened before it.
\<close>

record world =
  pil :: bool
  fonts :: font_env
  dirs :: "string set"
  files :: "string \<Rightarrow> image option"
  stdout :: "string list"

definition dirname :: "string \<Rightarrow> string" where
  "dirname p = rev (drop 1 (dropWhile (\<lambda>c. c \<noteq> CHR ''/'') (rev p)))"

text \<open>\<^verbatim>\<open>img.save(path, 'PNG')\<close>: opening the file fails with FileNotFoundError when its
  directory does not exist; otherwise the file holds the image.\<close>

definition save :: "world \<Rightarrow> string \<Rightarrow> image \<Rightarrow> world py_result" where
  "save w path img =
     (if dirname path \<in> dirs w then Inr (w\<lparr>files := (files w)(path \<mapsto> img)\<rparr>)
      else Inl FileNotFoundError)"

definition py_print :: "world \<Rightarrow> string \<Rightarrow> world" where
  "py_print w s = w\<lparr>stdout := stdout w @ [s]\<rparr>"

definition main_path :: string where
  "main_path = ''assets/icons/app_icon.png''"

definition fg_path :: string where
  "fg_path = ''assets/icons/app_icon_foreground.png''"

definition msg_main :: string where "msg_main = ''Created app_icon.png''"
definition msg_fg :: string where "msg_fg = ''Created app_icon_foreground.png''"
definition msg_done :: string where "msg_done = ''App icons created successfully!''"
definition msg_next :: string where
  "msg_next = ''Run 'flutter pub get' then 'flutter pub run flutter_launcher_icons:main' to generate platform icons''"
definition msg_no_pil :: string where
  "msg_no_pil = ''PIL (Pillow) not found. Please install it with: pip install Pillow''"

text \<open>Lines 14--142 with \<open>size = 1024\<close>: the exception that ends the call, if any, and the
  world at that point.\<close>

definition create_app_icon :: "raster \<Rightarrow> world \<Rightarrow> py_exc option \<times> world" where
  "create_app_icon r w =
     (case main_icon r (fonts w) 1024 of Inl e \<Rightarrow> (Some e, w) | Inr img \<Rightarrow>
      case save w main_path img of Inl e \<Rightarrow> (Some e, w) | Inr w \<Rightarrow>
      let w = py_print w msg_main in
      case fg_icon r (fonts w) 1024 of Inl e \<Rightarrow> (Some e, w) | Inr fg_img \<Rightarrow>
      case save w fg_path fg_img of Inl e \<Rightarrow> (Some e, w) | Inr w \<Rightarrow>
      let w = py_print w msg_fg;
          w = py_print w msg_done;
          w = py_print w msg_next
      in (None, w))"

text \<open>Lines 7--12 and 144--145: the final world and the exit status.\<close>

definition run_script :: "raster \<Rightarrow> world \<Rightarrow> world \<times> int" where
  "run_script r w =
     (if \<not> pil w then (py_print w msg_no_pil, 1)
      else case create_app_icon r w of
        (None, w') \<Rightarrow> (w', 0)
      | (Some e, w') \<Rightarrow> (w', 1))"

text \<open>A fresh checkout: no file written yet, nothing printed.\<close>

definition world0 :: "bool \<Rightarrow> string set \<Rightarrow> world" where
  "world0 p ds = \<lparr>pil = p, fonts = {}, dirs = ds, files = Map.empty, stdout = []\<rparr>"

lemma dirname_paths: "dirname main_path = ''assets/icons''" "dirname fg_path = ''assets/icons''"
  by (simp_all add: dirname_def main_path_def fg_path_def)

lemma world_frame [simp]:
  "pil (py_print w s) = pil w" "fonts (py_print w s) = fonts w" "dirs (py_print w s) = dirs w"
  "files (py_print w s) = files w"
  by (simp_all add: py_print_def)

lemma main_path_ne_fg_path [simp]: "main_path \<noteq> fg_path" "fg_path \<noteq> main_path"
  by (simp_all add: main_path_def fg_path_def)

lemma create_app_icon_ok:
  assumes "''assets/icons'' \<in> dirs w"
  shows "\<exists>a b. main_icon r (fonts w) 1024 = Inr a \<and> fg_icon r (fonts w) 1024 = Inr b \<and>
    create_app_icon r w = (None, w\<lparr>files := (files w)(main_path \<mapsto> a, fg_path \<mapsto> b),
      stdout := stdout w @ [msg_main, msg_fg, msg_done, msg_next]\<rparr>)"
proof -
  obtain a where a: "main_icon r (fonts w) 1024 = Inr a" using main_icon_ok [of 1024 r "fonts w"] by auto
  obtain b where b: "fg_icon r (fonts w) 1024 = Inr b" using fg_icon_ok [of 1024 r "fonts w"] by auto
  show ?thesis
    using a b assms by (simp add: create_app_icon_def save_def dirname_paths py_print_def)
qed

lemma create_app_icon_no_dir:
  "''assets/icons'' \<notin> dirs w \<Longrightarrow> create_app_icon r w = (Some FileNotFoundError, w)"
  using main_icon_ok [of 1024 r "fonts w"] by (auto simp: create_app_icon_def save_def dirname_paths)

section \<open>Properties of a run\<close>

text \<open>C13. When Pillow is installed and \<^verbatim>\<open>assets/icons\<close> exists, a run exits with status
  0 after writing both PNG files, each the RGBA 1024x1024 canvas drawn for it, and
  printing the four messages in source order.\<close>

theorem run_script_success:
  assumes "pil w" and "''assets/icons'' \<in> dirs w"
  shows "\<exists>a b. main_icon r (fonts w) 1024 = Inr a \<and> fg_icon r (fonts w) 1024 = Inr b \<and>
    img_mode a = ''RGBA'' \<and> img_width a = 1024 \<and> img_height a = 1024 \<and>
    img_mode b = ''RGBA'' \<and> img_width b = 1024 \<and> img_height b = 1024 \<and>
    run_script r w = (w\<lparr>files := (files w)(main_path \<mapsto> a, fg_path \<mapsto> b),
      stdout := stdout w @ [msg_main, msg_fg, msg_done, msg_next]\<rparr>, 0)"
proof -
  obtain a b where ab: "main_icon r (fonts w) 1024 = Inr a" "fg_icon r (fonts w) 1024 = Inr b"
    and c: "create_app_icon r w = (None, w\<lparr>files := (files w)(main_path \<mapsto> a, fg_path \<mapsto> b),
      stdout := stdout w @ [msg_main, msg_fg, msg_done, msg_next]\<rparr>)"
    using create_app_icon_ok [OF assms(2)] by blast
  have "img_mode a = ''RGBA'' \<and> img_width a = 1024 \<and> img_height a = 1024"
    using main_icon_ok [of 1024 r "fonts w"] ab(1) by auto
  moreover have "img_mode b = ''RGBA'' \<and> img_width b = 1024 \<and> img_height b = 1024"
    using fg_icon_ok [of 1024 r "fonts w"] ab(2) by auto
  ultimately show ?thesis using ab c assms(1) by (simp add: run_script_def)
qed

text \<open>C14. Otherwise the run exits with status 1 and writes no file: without Pillow it
  prints the install hint; without the \<^verbatim>\<open>assets/icons\<close> directory the first
  \<^verbatim>\<open>save\<close> raises FileNotFoundError before any message is printed.\<close>

theorem run_script_failure:
  assumes "\<not> (pil w \<and> ''assets/icons'' \<in> dirs w)"
  shows "run_script r w = (if pil w then w else py_print w msg_no_pil, 1)"
  using assms create_app_icon_no_dir [of w r] by (auto simp: run_script_def)

theorem run_script_success_witness:
  "pil (world0 True {''assets/icons''}) \<and> ''assets/icons'' \<in> dirs (world0 True {''assets/icons''}) \<and>
   (\<exists>a b. main_icon ideal_raster {} 1024 = Inr a \<and> fg_icon ideal_raster {} 1024 = Inr b \<and>
    img_mode a = ''RGBA'' \<and> img_width a = 1024 \<and> img_height a = 1024 \<and>
    img_mode b = ''RGBA'' \<and> img_width b = 1024 \<and> img_height b = 1024 \<and>
    run_script ideal_raster (world0 True {''assets/icons''}) =
      ((world0 True {''assets/icons''})\<lparr>files := [main_path \<mapsto> a, fg_path \<mapsto> b],
        stdout := [msg_main, msg_fg, msg_done, msg_next]\<rparr>, 0))"
  using run_script_success [of "world0 True {''assets/icons''}" ideal_raster] by (simp add: world0_def)

theorem run_script_failure_witness:
  "\<not> (pil (world0 True {}) \<and> ''assets/icons'' \<in> dirs (world0 True {})) \<and>
   run_script ideal_raster (world0 True {}) = (world0 True {}, 1)"
  using run_script_failure [of "world0 True {}" ideal_raster] by (simp add: world0_def)

end
