(* ===== verification/Layers.thy ===== *)
theory Layers
  imports Geometry
begin

text \<open>
  How the shapes of each canvas sit inside one another: the spec describes a flap
  "at the top of the wallet", a card "offset inside the wallet" with a stripe "near its
  top", and a coin "near the wallet's edge" holding the glyph.  The boxes come from the
  geometry of Geometry (src/assets/icons/create_icon.py, lines 36--76 and 100--123);
  the lemmas show the nesting holds for every canvas size, rounding of every
  \<open>int(x * c)\<close> included.
\<close>

fun shape_bbox :: "shape \<Rightarrow> bbox" where
  "shape_bbox (Ellipse b) = b"
| "shape_bbox (RoundedRect b _) = b"
| "shape_bbox (Text (x, y) _ _) = (x, y, x, y)"

definition box_within :: "bbox \<Rightarrow> bbox \<Rightarrow> bool" where
  "box_within b b' = (case b of (x0, y0, x1, y1) \<Rightarrow> case b' of (x0', y0', x1', y1') \<Rightarrow>
     x0' \<le> x0 \<and> y0' \<le> y0 \<and> x1 \<le> x1' \<and> y1 \<le> y1')"

definition nested :: "draw_op \<Rightarrow> draw_op \<Rightarrow> bool" where
  "nested d d' = box_within (shape_bbox (op_shape d)) (shape_bbox (op_shape d'))"

lemma nested_iff:
  "nested \<lparr>op_shape = s, op_fill = c\<rparr> \<lparr>op_shape = s', op_fill = c'\<rparr> \<longleftrightarrow>
   (case shape_bbox s of (x0, y0, x1, y1) \<Rightarrow> case shape_bbox s' of (x0', y0', x1', y1') \<Rightarrow>
     x0' \<le> x0 \<and> y0' \<le> y0 \<and> x1 \<le> x1' \<and> y1 \<le> y1')"
  by (simp add: nested_def box_within_def)

text \<open>On small canvases the coin radii \<open>int(size * 0.06)\<close> and \<open>int(size * 0.08)\<close> are 0.\<close>

lemma mg_dollar_radius_small:
  "0 \<le> sz \<Longrightarrow> sz \<le> 16 \<Longrightarrow> dollar_radius (main_geometry sz) = 0"
  using mg_dollar_radius [of sz] by simp

lemma fg_radius_small:
  "0 \<le> sz \<Longrightarrow> sz \<le> 12 \<Longrightarrow> dollar_bg_radius (fg_geometry sz) = 0"
  using fg_radius [of sz] by simp

text \<open>C17. In the main icon, for every canvas size, the flap, the card and the coin lie
  within the wallet's box, the stripe within the card's, and the glyph's anchor within
  the coin's.\<close>

theorem main_layers_nested:
  assumes "0 \<le> sz" and "sz < 2 ^ 31"
  shows "nested (flap_op (main_geometry sz)) (wallet_op (main_geometry sz)) \<and>
    nested (card_op (main_geometry sz)) (wallet_op (main_geometry sz)) \<and>
    nested (stripe_op (main_geometry sz)) (card_op (main_geometry sz)) \<and>
    nested (coin_op (main_geometry sz)) (wallet_op (main_geometry sz)) \<and>
    nested (glyph_op (main_geometry sz) f) (coin_op (main_geometry sz))"
proof -
  define g where "g = main_geometry sz"
  note b = main_geometry_bounds [OF assms, folded g_def, unfolded right_diff_distrib distrib_left]
  have "nested (flap_op g) (wallet_op g)"
    unfolding flap_op_def wallet_op_def nested_iff using b(7) by simp
  moreover have "nested (card_op g) (wallet_op g)"
    unfolding card_op_def wallet_op_def nested_iff using b(5,6,8-11) by (simp; linarith)
  moreover have "nested (stripe_op g) (card_op g)"
    unfolding stripe_op_def card_op_def nested_iff using b(11,12) by simp
  moreover have "nested (coin_op g) (wallet_op g)"
  proof (cases "sz \<le> 16")
    case True
    then have "dollar_radius g = 0" using mg_dollar_radius_small assms(1) by (simp add: g_def)
    then show ?thesis unfolding coin_op_def wallet_op_def nested_iff using b(5,6,13,14) by (simp; linarith)
  next
    case False
    then show ?thesis unfolding coin_op_def wallet_op_def nested_iff
      using b(3-6,13-15) by (simp; linarith)
  qed
  moreover have "nested (glyph_op g f) (coin_op g)"
    unfolding glyph_op_def coin_op_def nested_iff using b(15) by simp
  ultimately show ?thesis by (simp add: g_def)
qed

text \<open>C18. In the adaptive foreground, for every canvas size, the flap and the coin lie
  within the wallet's box and the glyph's anchor within the coin's.\<close>

theorem fg_layers_nested:
  assumes "0 \<le> sz" and "sz < 2 ^ 31"
  shows "nested (fg_flap_op (fg_geometry sz)) (fg_wallet_op (fg_geometry sz)) \<and>
    nested (fg_coin_op (fg_geometry sz)) (fg_wallet_op (fg_geometry sz)) \<and>
    nested (fg_glyph_op (fg_geometry sz) f) (fg_coin_op (fg_geometry sz))"
proof -
  define g where "g = fg_geometry sz"
  note b = fg_geometry_bounds [OF assms, folded g_def, unfolded right_diff_distrib distrib_left]
  have "nested (fg_flap_op g) (fg_wallet_op g)"
    unfolding fg_flap_op_def fg_wallet_op_def nested_iff using b(4,5) by (simp; linarith)
  moreover have "nested (fg_coin_op g) (fg_wallet_op g)"
  proof (cases "sz \<le> 12")
    case True
    then have "dollar_bg_radius g = 0" using fg_radius_small assms(1) by (simp add: g_def)
    then show ?thesis unfolding fg_coin_op_def fg_wallet_op_def nested_iff
      using b(1-4,6,7) assms by (simp; linarith)
  next
    case False
    then show ?thesis unfolding fg_coin_op_def fg_wallet_op_def nested_iff
      using b(1-4,6-8) by (simp; linarith)
  qed
  moreover have "nested (fg_glyph_op g f) (fg_coin_op g)"
    unfolding fg_glyph_op_def fg_coin_op_def nested_iff using b(8) by simp
  ultimately show ?thesis by (simp add: g_def)
qed

theorem main_layers_nested_witness:
  "0 \<le> (256::int) \<and> (256::int) < 2 ^ 31 \<and>
   nested (flap_op (main_geometry 256)) (wallet_op (main_geometry 256)) \<and>
   nested (card_op (main_geometry 256)) (wallet_op (main_geometry 256)) \<and>
   nested (stripe_op (main_geometry 256)) (card_op (main_geometry 256)) \<and>
   nested (coin_op (main_geometry 256)) (wallet_op (main_geometry 256)) \<and>
   nested (glyph_op (main_geometry 256) DefaultFont) (coin_op (main_geometry 256))"
  using main_layers_nested [of 256 DefaultFont] by simp

theorem fg_layers_nested_witness:
  "0 \<le> (256::int) \<and> (256::int) < 2 ^ 31 \<and>
   nested (fg_flap_op (fg_geometry 256)) (fg_wallet_op (fg_geometry 256)) \<and>
   nested (fg_coin_op (fg_geometry 256)) (fg_wallet_op (fg_geometry 256)) \<and>
   nested (fg_glyph_op (fg_geometry 256) DefaultFont) (fg_coin_op (fg_geometry 256))"
  using fg_layers_nested [of 256 DefaultFont] by simp

end
