(* ===== verification/GradientExact.thy ===== *)
theory GradientExact
  imports Gradient
begin

text \<open>
  The background colours against their exact reference.  Line 27 of
  src/assets/icons/create_icon.py computes \<open>int(a + (b - a) * (i / radius))\<close> in binary64;
  \<open>lerp_exact\<close> is the same expression in exact arithmetic, \<open>floor((a * radius -
  (a - b) * i) / radius)\<close>.  The float result is the exact one whenever the exact value is
  not an integer (the accumulated rounding error is below \<open>2^-44\<close>, the distance to the
  next integer at least \<open>1 / radius > 2^-31\<close>), and always for the red channel, whose step
  \<open>8\<close> is a power of two.
\<close>

definition lerp_exact :: "int \<Rightarrow> int \<Rightarrow> int \<Rightarrow> int \<Rightarrow> int" where
  "lerp_exact a b i radius = (a * radius - (a - b) * i) div radius"

declare lerp_exact_def [py_eval]

lemma ring_value_near:
  assumes i: "0 \<le> i" "i < rad" and ab: "0 \<le> b" "b \<le> a" "a < 256" "a - b < 32"
  shows "\<bar>dround (of_int a + dround (of_int (b - a) * fval (ring_t rad i))) -
           (of_int a - of_int (a - b) * (of_int i / of_int rad))\<bar> \<le> 1 / 2 ^ 44"
proof -
  define E where "E = (1 :: rat) / 2 ^ 54"
  define q where "q = (of_int i / of_int rad :: rat)"
  define t where "t = fval (ring_t rad i)"
  define d where "d = (of_int (a - b) :: rat)"
  have E: "0 < E" by (simp add: E_def)
  have d: "0 \<le> d" "d \<le> 31" using ab by (simp_all add: d_def)
  have a: "0 \<le> (of_int a :: rat)" "(of_int a :: rat) < 256" using ab by simp_all
  have q: "0 \<le> q" "q < 1" using i by (simp_all add: q_def)
  have t: "t = dround q" using i by (simp add: t_def q_def fval_ring_t)
  have et: "\<bar>t - q\<bar> \<le> E" using dround_err_pow2 [of q 0] q by (simp add: t E_def)
  have t01: "0 \<le> t" "t \<le> 1" using ring_t_unit [OF i] by (simp_all add: t_def)
  have dt: "0 \<le> d * t" "d * t \<le> d" using d t01 by (simp_all add: mult_left_le)
  have edt: "\<bar>d * t - d * q\<bar> \<le> 31 * E"
  proof -
    have "\<bar>d * t - d * q\<bar> = d * \<bar>t - q\<bar>" using d by (simp add: abs_mult right_diff_distrib [symmetric])
    also have "\<dots> \<le> 31 * E" using d et E by (intro mult_mono) simp_all
    finally show ?thesis .
  qed
  have p: "of_int (b - a) * t = - (d * t)" by (simp add: d_def algebra_simps)
  define u where "u = dround (- (d * t))"
  have eu: "\<bar>u - - (d * t)\<bar> \<le> 32 * E"
    using dround_err_pow2 [of "- (d * t)" 5] dt d by (simp add: u_def E_def)
  have "\<bar>of_int a + u\<bar> < 2 ^ 9"
    using abs_le_D1 [OF eu] abs_le_D2 [OF eu] a dt d E by (simp add: abs_less_iff E_def; linarith)
  then have ev: "\<bar>dround (of_int a + u) - (of_int a + u)\<bar> \<le> 512 * E"
    using dround_err_pow2 [of "of_int a + u" 9] by (simp add: E_def)
  have "\<bar>dround (of_int a + u) - (of_int a - d * q)\<bar> \<le> 1024 * E"
    using abs_le_D1 [OF ev] abs_le_D2 [OF ev] abs_le_D1 [OF eu] abs_le_D2 [OF eu]
      abs_le_D1 [OF edt] abs_le_D2 [OF edt]
    by (simp only: abs_le_iff) linarith
  then show ?thesis
    unfolding t_def [symmetric] q_def [symmetric] d_def [symmetric] p u_def [symmetric]
    by (simp add: E_def)
qed

lemma floor_between:
  assumes "of_int k < v" and "v < of_int k + 1"
  shows "\<lfloor>v :: rat\<rfloor> = k"
  using assms by (intro floor_unique) simp_all

lemma lerp_channel_ring_exact:
  assumes i: "0 \<le> i" "i < rad" and r: "rad < 2 ^ 31"
    and ab: "0 \<le> b" "b \<le> a" "a < 256" "a - b < 32"
    and nd: "i = 0 \<or> \<not> rad dvd (a - b) * i"
  shows "lerp_channel a b (ring_t rad i) = lerp_exact a b i rad"
proof (cases "i = 0")
  case True
  have "lerp_channel a b (0, 0) = a" using ab by (intro lerp_channel_zero) simp_all
  moreover have "rad \<noteq> 0" using i by simp
  ultimately show ?thesis using True by (simp add: ring_t_zero lerp_exact_def)
next
  case False
  with nd have nd: "\<not> rad dvd (a - b) * i" by simp
  have rad: "0 < rad" using i by simp
  define Y where "Y = a * rad - (a - b) * i"
  define D where "D = Y div rad"
  define m where "m = Y mod rad"
  have "\<not> rad dvd Y"
  proof
    assume "rad dvd Y"
    then have "rad dvd a * rad - Y" using dvd_diff dvd_triv_right by blast
    then show False using nd by (simp add: Y_def)
  qed
  then have "m \<noteq> 0" by (simp add: m_def dvd_eq_mod_eq_0)
  moreover have "0 \<le> m" "m < rad" using rad by (simp_all add: m_def)
  ultimately have m: "(1 :: rat) \<le> of_int m" "of_int m \<le> (of_int rad :: rat) - 1" by simp_all
  have YD: "Y = rad * D + m" by (simp add: D_def m_def)
  have "(a - b) * i \<le> (a - b) * rad" using ab i by (intro mult_left_mono) simp_all
  moreover have "0 \<le> b * rad" using ab rad by simp
  moreover have "a * rad - (a - b) * rad = b * rad" by (simp add: algebra_simps)
  ultimately have "0 \<le> Y" by (simp add: Y_def)
  then have D0: "0 \<le> D" using rad by (simp add: D_def pos_imp_zdiv_nonneg_iff)
  have rq: "(0 :: rat) < of_int rad" "(of_int rad :: rat) < 2 ^ 31" using rad r by simp_all
  define y where "y = (of_int a - of_int (a - b) * (of_int i / of_int rad) :: rat)"
  have "y = of_int Y / of_int rad" using rq unfolding y_def Y_def by (simp add: field_simps)
  also have "\<dots> = of_int D + of_int m / of_int rad" using rq YD by (simp add: field_simps)
  finally have y: "y = of_int D + of_int m / of_int rad" .
  have mr1: "1 / of_int rad \<le> of_int m / (of_int rad :: rat)"
    using m(1) rq(1) by (intro divide_right_mono) simp_all
  have "of_int m / of_int rad \<le> (of_int rad - 1) / (of_int rad :: rat)"
    using m(2) rq(1) by (intro divide_right_mono) simp_all
  also have "\<dots> = 1 - 1 / of_int rad" using rq(1) by (simp add: diff_divide_distrib)
  finally have mr: "1 / of_int rad \<le> (of_int m / of_int rad :: rat)" "of_int m / of_int rad \<le> 1 - 1 / (of_int rad :: rat)"
    using mr1 by simp_all
  have small: "1 / 2 ^ 44 < 1 / (of_int rad :: rat)" using rq by (simp add: field_simps)
  define v where "v = dround (of_int a + dround (of_int (b - a) * fval (ring_t rad i)))"
  have "\<bar>v - y\<bar> \<le> 1 / 2 ^ 44" using ring_value_near [OF i ab] by (simp add: v_def y_def)
  then have "of_int D < v" "v < of_int D + 1"
    using abs_le_D1 abs_le_D2 y mr small by fastforce+
  then have "py_trunc v = D" using D0 by (simp add: floor_between)
  moreover have "lerp_channel a b (ring_t rad i) = py_trunc v"
    using ab by (simp add: lerp_channel_eq v_def abs_less_iff)
  ultimately show ?thesis by (simp add: lerp_exact_def Y_def D_def)
qed

lemma lerp_channel_red_exact:
  assumes i: "0 \<le> i" "i < rad" and r: "rad < 2 ^ 31"
  shows "lerp_channel 37 29 (ring_t rad i) = lerp_exact 37 29 i rad"
proof (cases "rad dvd 8 * i")
  case False
  then show ?thesis using lerp_channel_ring_exact [OF i r, of 29 37] by simp
next
  case True
  then obtain k where k: "8 * i = rad * k" by (auto elim: dvdE)
  have rad: "0 < rad" using i by simp
  have "0 \<le> rad * k" using k i by simp
  then have k0: "0 \<le> k" using rad by (simp add: zero_le_mult_iff)
  have "rad * k < rad * 8" using k i by linarith
  then have k8: "k < 8" using rad by (simp add: mult_less_cancel_left)
  have q: "(of_int i / of_int rad :: rat) = of_int k / 2 ^ 3"
  proof -
    have "(8 * of_int i :: rat) = of_int rad * of_int k" using k by (metis of_int_mult of_int_numeral)
    then show ?thesis using rad by (simp add: field_simps)
  qed
  have t: "fval (ring_t rad i) = of_int k / 2 ^ 3"
    using dround_exact_frac [of k 3] k0 k8 rad by (simp add: fval_ring_t q)
  have u: "dround (- of_int k) = (- of_int k :: rat)"
    using dround_of_int [of "- k"] k0 k8 by simp
  have v: "dround (37 - of_int k) = (37 - of_int k :: rat)"
    using dround_of_int [of "37 - k"] k0 k8 by simp
  have w: "py_trunc (37 - of_int k) = 37 - k" using py_trunc_of_int [of "37 - k"] by simp
  have "lerp_channel 37 29 (ring_t rad i) = 37 - k"
    using u v w by (simp add: lerp_channel_eq t)
  moreover have "lerp_exact 37 29 i rad = 37 - k"
  proof -
    have "37 * rad - (37 - 29) * i = rad * (37 - k)" using k by (simp add: algebra_simps)
    then show ?thesis using rad by (simp add: lerp_exact_def)
  qed
  ultimately show ?thesis by simp
qed

lemma coprime_not_dvd:
  assumes "coprime rad (c :: int)" and "0 < i" and "i < rad"
  shows "\<not> rad dvd c * i"
proof
  assume "rad dvd c * i"
  then have "rad dvd i" using assms(1) by (simp add: coprime_dvd_mult_right_iff)
  then show False using assms(2,3) by (auto dest: zdvd_imp_le)
qed

lemma ring_op_exact:
  assumes i: "0 \<le> i" "i < rad" and r: "rad < 2 ^ 31"
    and c: "coprime rad 21" "coprime rad 19"
  shows "ring_op center rad i (ring_t rad i) =
    \<lparr>op_shape = Ellipse (center - rad + i, center - rad + i, center + rad - i, center + rad - i),
     op_fill = (lerp_exact 37 29 i rad, lerp_exact 99 78 i rad, lerp_exact 235 216 i rad, 255)\<rparr>"
proof -
  have "i = 0 \<or> \<not> rad dvd 21 * i" "i = 0 \<or> \<not> rad dvd 19 * i"
    using coprime_not_dvd [OF c(1), of i] coprime_not_dvd [OF c(2), of i] i by auto
  then show ?thesis
    using lerp_channel_red_exact [OF i r] lerp_channel_ring_exact [OF i r, of 78 99]
      lerp_channel_ring_exact [OF i r, of 216 235]
    by (simp add: ring_op_def)
qed

text \<open>C21. Every ring's colour is exactly the linear interpolation the comment describes,
  computed in exact arithmetic and truncated, whenever the radius shares no factor with
  the channel steps 21 and 19 (the red step 8 needs no condition): the binary64 rounding
  of lines 26--29 never changes a colour.\<close>

theorem gradient_step_exact:
  assumes "0 \<le> i" and "i < radius" and "radius < 2 ^ 31"
    and "coprime radius 21" and "coprime radius 19"
  shows "gradient_step center radius i =
    Inr \<lparr>op_shape = Ellipse (center - radius + i, center - radius + i, center + radius - i, center + radius - i),
         op_fill = (lerp_exact 37 29 i radius, lerp_exact 99 78 i radius, lerp_exact 235 216 i radius, 255)\<rparr>"
  using assms ring_op_exact [OF assms] by (simp add: gradient_step_ring)

lemma coprime_481: "coprime (481 :: int) 21" "coprime (481 :: int) 19"
  by code_simp+

theorem gradient_step_exact_witness:
  "0 \<le> (100::int) \<and> (100::int) < 481 \<and> (481::int) < 2 ^ 31 \<and> coprime (481::int) 21 \<and> coprime (481::int) 19 \<and>
   gradient_step 512 481 100 =
    Inr \<lparr>op_shape = Ellipse (131, 131, 893, 893),
         op_fill = (lerp_exact 37 29 100 481, lerp_exact 99 78 100 481, lerp_exact 235 216 100 481, 255)\<rparr>"
  using gradient_step_exact [of 100 481 512] coprime_481 by simp

end
