(* ===== verification/Spec2Isabelle.thy ===== *)
theory Spec2Isabelle
  imports Script Layers GradientExact
begin

text \<open>
  Verification of \<^verbatim>\<open>src/assets/icons/create_icon.py\<close> (expensify-flutter-app), the
  script that draws the wallet app icon and its adaptive foreground with Pillow and
  saves them as \<^verbatim>\<open>assets/icons/app_icon.png\<close> and
  \<^verbatim>\<open>assets/icons/app_icon_foreground.png\<close>.

  \<^bold>\<open>The program.\<close>  A guarded import (lines 7--12) ends the run with status 1 when
  Pillow is missing.  \<^verbatim>\<open>create_app_icon\<close> (lines 14--142) computes every coordinate as
  \<open>int(x * c)\<close> with \<open>c\<close> a float literal, draws a background of concentric rings whose
  colour is interpolated with float arithmetic (lines 25--33), then wallet, flap, card,
  stripe and coin shapes and a "$" glyph whose font comes from a try/except fallback
  chain, saves the image, prints, and does the same for a simpler foreground canvas.

  \<^bold>\<open>Theories.\<close>
  \<^item> Prelude: Python exceptions and results (\<open>py_exc\<close>, \<open>sbind\<close>, \<open>try_except\<close>),
    \<open>int()\<close> on exact values (\<open>py_trunc\<close>), \<open>range\<close> (\<open>py_range\<close>), pixel and box types.
  \<^item> PyFloat: IEEE binary64 round-to-nearest-even over exact rationals (\<open>dround\<close>) and an
    executable integer representation (\<open>round_frac\<close>, \<open>fmul\<close>, \<open>fadd\<close>, \<open>fsub\<close>,
    \<open>int_truediv\<close>, \<open>ftrunc\<close>) proved to refine it (\<open>fval_round_frac\<close>, \<open>fval_fmul\<close>, ...);
    \<open>int_of_mul n c\<close> is Python's \<open>int(n * c)\<close>, with bounds from dyadic enclosures of
    the literal (\<open>int_of_mul_lit\<close>), and \<open>dround_err_pow2\<close> bounds the rounding error.
    Exactness needs \<open>|n| < 2^53\<close>; the geometry lemmas assume \<open>0 \<le> n < 2^31\<close>.
  \<^item> PilDraw: the Pillow calls (\<open>pil_new\<close>, \<open>draw\<close>, \<open>render\<close>), modelled from Pillow's
    behaviour since Pillow is not code of the repository.  \<open>pil_new\<close> is
    \<^verbatim>\<open>Image.new(mode, size, colour)\<close>: ValueError for a negative size, OverflowError
    above \<open>INT_MAX\<close>, MemoryError for a width above \<open>INT_MAX / 4 - 1 = 536870910\<close>.  A
    draw call checks its box (ValueError), clamps the colour (\<open>clip8\<close>) and overwrites
    without blending.  The rasteriser is a parameter \<open>r\<close> constrained by \<open>raster_ok\<close>;
    \<open>ideal_raster\<close> meets it.  \<open>render_painted\<close> shows that a sequence of draws is the
    painter's algorithm.
  \<^item> Geometry: \<open>main_geometry\<close> and \<open>fg_geometry\<close> (every \<open>int(size * c)\<close> of lines
    21--71 and 100--119) and the shape records of each draw call; C1 and C2 show every
    shape lies on the canvas for every size \<open>1 \<le> sz < 2^31\<close>.
  \<^item> Layers: \<open>nested\<close> boxes; C17 and C18 show, for every size, that flap, card and
    coin lie within the wallet, the stripe within the card and the glyph anchor within
    the coin, as the spec describes the icon.
  \<^item> Gradient: \<open>gradient_step\<close> (one loop body, its four true divisions and the dead
    \<open>alpha\<close>) and \<open>gradient_loop\<close>; C3--C6 bound the colours, show they darken
    monotonically, pin the two end colours for every radius \<open>\<ge> 64\<close>, and show the loop
    never raises; C19 shows it runs exactly \<open>max radius 0\<close> iterations, in order.
  \<^item> GradientExact: \<open>lerp_exact\<close>, the interpolation of line 27 in exact arithmetic.
    The rounding error of the three float operations is below \<open>2^-44\<close>, less than the
    distance \<open>1/radius\<close> of a non-integral exact value to the next integer; C21 shows
    every ring colour equals the exact one when the radius is coprime to 21 and 19
    (lemma \<open>lerp_channel_red_exact\<close> shows the red channel needs no condition).
  \<^item> Fonts: \<open>truetype\<close>, \<open>resolve_font\<close> (lines 79--86, 125--132); C7 is its contract.
  \<^item> Icons: \<open>main_icon\<close> and \<open>fg_icon\<close>, the two canvases as sequences of Pillow calls;
    C8 and C9 give their result or exception for every integer size; C10--C12 and C20
    give pixel facts at 1024 for every admissible rasteriser and font environment (C20:
    the draw order decides overlaps); C15 shows the default font is used on canvases of
    at most 16 pixels whatever is installed.
  \<^item> Script: the world record (Pillow present, fonts, directories, files, stdout),
    \<open>save\<close>, \<open>py_print\<close>, \<open>create_app_icon\<close> and \<open>run_script\<close>; C13 and C14 give the
    success run and the failure runs.
  \<^item> This theory: C16, the specification's end-to-end scenario, composing the run
    (Script) with the pixel facts of both canvases (Icons); C22, the background of the
    1024-pixel icon is exactly 481 rings of exact-arithmetic colours (Geometry and
    GradientExact).

  \<^bold>\<open>Bounds.\<close>  Float literals are enclosed by \<open>p/1024 \<le> c \<le> q/1024\<close>; sizes below
  \<open>2^31\<close> keep every product below \<open>2^53\<close>, where conversion to float is exact.
  Concrete facts at size 1024 are evaluated with \<open>code_simp\<close> on the integer float
  representation.  No fuel is needed: the only loop is \<open>for i in range(radius)\<close>,
  structural recursion over a list.

  \<^bold>\<open>Not modelled.\<close>  Pillow's scan conversion (a parameter under a contract), glyph
  outlines of font files and the \<^verbatim>\<open>anchor="mm"\<close> placement (the glyph is bounded by
  its font's extent around the anchor), PNG encoding (a saved file is the image it
  encodes), failure of the process to allocate memory (possible at any allocation,
  not a behaviour of this script), OSErrors of \<^verbatim>\<open>save\<close> other than a missing
  directory, the traceback text of an uncaught exception, and the search path Pillow
  uses to find \<^verbatim>\<open>arial.ttf\<close> (the font environment is the set of names it can open).
  Pillow is modelled as of version 10.1, where \<^verbatim>\<open>truetype\<close> refuses a size below 1.
\<close>

section \<open>The run end to end\<close>

text \<open>C16. The end-to-end scenario of the specification: with Pillow installed and the
  output directory present, for every font environment and every rasteriser meeting the
  contract, a run exits with status 0, \<^verbatim>\<open>app_icon.png\<close> is a 1024x1024 RGBA image whose
  centre pixel is the opaque stripe colour, and \<^verbatim>\<open>app_icon_foreground.png\<close> is a
  1024x1024 RGBA image whose centre pixel is opaque.\<close>

theorem run_end_to_end:
  assumes "raster_ok r" and "pil w" and "''assets/icons'' \<in> dirs w"
  shows "\<exists>w' a b. run_script r w = (w', 0) \<and>
    files w' main_path = Some a \<and> img_mode a = ''RGBA'' \<and> img_width a = 1024 \<and> img_height a = 1024 \<and>
    img_px a (512, 512) = ink (6, 95, 70, 255) \<and>
    files w' fg_path = Some b \<and> img_mode b = ''RGBA'' \<and> img_width b = 1024 \<and> img_height b = 1024 \<and>
    snd (snd (snd (img_px b (512, 512)))) = 255"
proof -
  obtain a b where ab: "main_icon r (fonts w) 1024 = Inr a" "fg_icon r (fonts w) 1024 = Inr b"
    and c: "create_app_icon r w = (None, w\<lparr>files := (files w)(main_path \<mapsto> a, fg_path \<mapsto> b),
      stdout := stdout w @ [msg_main, msg_fg, msg_done, msg_next]\<rparr>)"
    using create_app_icon_ok [OF assms(3)] by blast
  have fa: "img_mode a = ''RGBA'' \<and> img_width a = 1024 \<and> img_height a = 1024"
    using main_icon_ok [of 1024 r "fonts w"] ab(1) by auto
  have fb: "img_mode b = ''RGBA'' \<and> img_width b = 1024 \<and> img_height b = 1024"
    using fg_icon_ok [of 1024 r "fonts w"] ab(2) by auto
  have pa: "img_px a (512, 512) = ink (6, 95, 70, 255)"
    by (rule main_icon_centre_px [OF assms(1) ab(1)])
  have "snd (snd (snd (img_px b (512, 512)))) = 255"
    using fg_icon_centre_px [OF assms(1) ab(2)] by (auto simp: ink_alpha)
  then show ?thesis
    using c fa fb pa assms(2) by (simp add: run_script_def)
qed

theorem run_end_to_end_witness:
  "raster_ok ideal_raster \<and> pil (world0 True {''assets/icons''}) \<and>
   ''assets/icons'' \<in> dirs (world0 True {''assets/icons''}) \<and>
   (\<exists>w' a b. run_script ideal_raster (world0 True {''assets/icons''}) = (w', 0) \<and>
    files w' main_path = Some a \<and> img_mode a = ''RGBA'' \<and> img_width a = 1024 \<and> img_height a = 1024 \<and>
    img_px a (512, 512) = ink (6, 95, 70, 255) \<and>
    files w' fg_path = Some b \<and> img_mode b = ''RGBA'' \<and> img_width b = 1024 \<and> img_height b = 1024 \<and>
    snd (snd (snd (img_px b (512, 512)))) = 255)"
  using run_end_to_end [of ideal_raster "world0 True {''assets/icons''}"] ideal_raster_ok
  by (simp add: world0_def)

text \<open>C22. The background the script actually draws (size 1024, so centre 512 and radius
  481) consists of exactly 481 rings whose colours are the exact-arithmetic interpolation
  of every ring: no ring's colour is changed by floating-point rounding.\<close>

theorem main_background_exact:
  "gradient_ops (center (main_geometry 1024)) (radius (main_geometry 1024)) =
   map (\<lambda>i. \<lparr>op_shape = Ellipse (31 + i, 31 + i, 993 - i, 993 - i),
             op_fill = (lerp_exact 37 29 i 481, lerp_exact 99 78 i 481, lerp_exact 235 216 i 481, 255)\<rparr>)
     (py_range 481)"
proof -
  have "ring_op 512 481 i (ring_t 481 i) =
     \<lparr>op_shape = Ellipse (31 + i, 31 + i, 993 - i, 993 - i),
      op_fill = (lerp_exact 37 29 i 481, lerp_exact 99 78 i 481, lerp_exact 235 216 i 481, 255)\<rparr>"
    if "i \<in> set (py_range 481)" for i
    using that ring_op_exact [of i 481 512] coprime_481 by simp
  then show ?thesis by (simp add: check_1024 gradient_ops_def)
qed

end
